theory Spec2Isabelle
  imports Main "HOL-Library.Word" "HOL-Library.Sublist"
begin

section \<open>Python objects\<close>

text \<open>
  The utilities of \<^verbatim>\<open>promptflow/_utils/tool_utils.py\<close> inspect Python objects at run
  time: annotations, default values, responses of list functions. One datatype holds the
  objects they read. Characters are code points below 256.
\<close>

datatype builtin =
    NoneType | BoolT | IntT | FloatT | StrT | ListT | TupleT | DictT | TypeT | EnumMetaT

datatype pyobj =
    PNone
  | PBool bool
  | PInt int
  | PFloat "64 word"
    \<comment> \<open>a float as its IEEE 754 binary64 bit pattern\<close>
  | PStr string
  | PList "pyobj list"
  | PTuple "pyobj list"
  | PDict "(pyobj \<times> pyobj) list"
    \<comment> \<open>a dict as its items in insertion order\<close>
  | PEmpty
    \<comment> \<open>the class \<^verbatim>\<open>inspect.Parameter.empty\<close>\<close>
  | PBuiltin builtin
    \<comment> \<open>the class object of a builtin type\<close>
  | PClass string
    \<comment> \<open>any other class that is not an enumeration, with its \<^verbatim>\<open>__name__\<close>\<close>
  | PEnumClass string "pyobj list"
    \<comment> \<open>an \<^verbatim>\<open>Enum\<close> class: its \<^verbatim>\<open>__name__\<close> and the values of its members, in definition order\<close>
  | PEnumMember pyobj pyobj
    \<comment> \<open>a member of an \<^verbatim>\<open>Enum\<close> class: the class and the member's \<^verbatim>\<open>value\<close>\<close>
  | PSpecialForm string
    \<comment> \<open>a special form of \<^verbatim>\<open>typing\<close>, such as \<^verbatim>\<open>typing.Union\<close>\<close>
  | PGeneric pyobj "pyobj list"
    \<comment> \<open>a subscripted generic: its origin and its arguments\<close>
  | PInstance pyobj bool
    \<comment> \<open>an instance of a class that is none of the above: the class and the instance's truth value\<close>

definition typing_Union :: pyobj where
  "typing_Union = PSpecialForm ''Union''"

fun get_origin :: "pyobj \<Rightarrow> pyobj" where
  "get_origin (PGeneric origin args) = origin"
| "get_origin anno = PNone"

fun get_args :: "pyobj \<Rightarrow> pyobj list" where
  "get_args (PGeneric origin args) = args"
| "get_args anno = []"

text \<open>
  \<^verbatim>\<open>typing\<close> normalises the parameters of \<^verbatim>\<open>Union[...]\<close> before it builds the union: a
  parameter that is a union stands for its members, \<^verbatim>\<open>None\<close> stands for \<^verbatim>\<open>NoneType\<close>, a
  member that occurs again is dropped, and a single member left is the result itself, not
  a union. So the arguments of a union are at least two, distinct, and none is a union.
\<close>

definition union_members :: "pyobj \<Rightarrow> pyobj list" where
  \<comment> \<open>the members that one parameter of \<^verbatim>\<open>Union[...]\<close> stands for\<close>
  "union_members p =
     (if get_origin p = typing_Union then get_args p
      else if p = PNone then [PBuiltin NoneType]
      else [p])"

definition first_occurrences :: "'a list \<Rightarrow> 'a list" where
  \<comment> \<open>the list without the elements that occurred before\<close>
  "first_occurrences xs = rev (remdups (rev xs))"

definition Union_of :: "pyobj list \<Rightarrow> pyobj" where
  \<comment> \<open>\<^verbatim>\<open>Union[a, b, ...]\<close>, for at least one parameter\<close>
  "Union_of params =
     (case first_occurrences (concat (map union_members params)) of
        [m] \<Rightarrow> m
      | ms \<Rightarrow> PGeneric typing_Union ms)"




fun type_of :: "pyobj \<Rightarrow> pyobj" where
  \<comment> \<open>\<^verbatim>\<open>type(obj)\<close>\<close>
  "type_of PNone = PBuiltin NoneType"
| "type_of (PBool b) = PBuiltin BoolT"
| "type_of (PInt i) = PBuiltin IntT"
| "type_of (PFloat x) = PBuiltin FloatT"
| "type_of (PStr s) = PBuiltin StrT"
| "type_of (PList xs) = PBuiltin ListT"
| "type_of (PTuple xs) = PBuiltin TupleT"
| "type_of (PDict kvs) = PBuiltin DictT"
| "type_of PEmpty = PBuiltin TypeT"
| "type_of (PBuiltin c) = PBuiltin TypeT"
| "type_of (PClass n) = PBuiltin TypeT"
| "type_of (PEnumClass n vs) = PBuiltin EnumMetaT"
| "type_of (PEnumMember c v) = c"
| "type_of (PSpecialForm n) = PClass ''_SpecialForm''"
| "type_of (PGeneric origin args) = PClass ''_GenericAlias''"
| "type_of (PInstance c b) = c"

fun issubclass :: "builtin \<Rightarrow> builtin \<Rightarrow> bool" where
  \<comment> \<open>the builtin classes: \<^verbatim>\<open>bool\<close> derives from \<^verbatim>\<open>int\<close>, \<^verbatim>\<open>EnumMeta\<close> from \<^verbatim>\<open>type\<close>\<close>
  "issubclass BoolT IntT = True"
| "issubclass EnumMetaT TypeT = True"
| "issubclass a b = (a = b)"

definition isinstance :: "pyobj \<Rightarrow> builtin list \<Rightarrow> bool" where
  \<comment> \<open>\<^verbatim>\<open>isinstance(obj, (c1, c2, ...))\<close> for builtin classes; instances of other classes
      are taken not to derive from a builtin one\<close>
  "isinstance obj classes =
     (case type_of obj of
        PBuiltin t \<Rightarrow> list_ex (\<lambda>c. issubclass t c) classes
      | _ \<Rightarrow> False)"

fun truthy :: "pyobj \<Rightarrow> bool" where
  \<comment> \<open>\<^verbatim>\<open>bool(obj)\<close>; a float is false when it is \<^verbatim>\<open>0.0\<close> or \<^verbatim>\<open>-0.0\<close>\<close>
  "truthy PNone = False"
| "truthy (PBool b) = b"
| "truthy (PInt i) = (i \<noteq> 0)"
| "truthy (PFloat x) = (x \<noteq> 0 \<and> x \<noteq> 0x8000000000000000)"
| "truthy (PStr s) = (s \<noteq> [])"
| "truthy (PList xs) = (xs \<noteq> [])"
| "truthy (PTuple xs) = (xs \<noteq> [])"
| "truthy (PDict kvs) = (kvs \<noteq> [])"
| "truthy (PInstance c b) = b"
| "truthy obj = True"

fun list_items :: "pyobj \<Rightarrow> pyobj list" where
  "list_items (PList xs) = xs"
| "list_items obj = []"

fun dict_items :: "pyobj \<Rightarrow> (pyobj \<times> pyobj) list" where
  "dict_items (PDict kvs) = kvs"
| "dict_items obj = []"

section \<open>What the module imports\<close>

text \<open>
  The module reads \<^verbatim>\<open>ConnectionType\<close>, \<^verbatim>\<open>InputDefinition\<close>, \<^verbatim>\<open>Tool\<close> and \<^verbatim>\<open>ValueType\<close>
  from \<^verbatim>\<open>promptflow.contracts.tool\<close> and \<^verbatim>\<open>is_json_serializable\<close> from
  \<^verbatim>\<open>promptflow._utils.utils\<close>. The functions among them, and Python's \<^verbatim>\<open>str\<close>, are
  parameters of the model.
\<close>

datatype ValueType =
    VT_INT | VT_DOUBLE | VT_BOOL | VT_STRING | VT_SECRET | VT_PROMPT_TEMPLATE | VT_LIST | VT_OBJECT
  | VT_FILE_PATH | VT_IMAGE
    \<comment> \<open>the members \<^verbatim>\<open>ValueType.INT\<close> to \<^verbatim>\<open>ValueType.IMAGE\<close>\<close>

record externals =
  is_connection_value :: "pyobj \<Rightarrow> bool"
  is_custom_strong_type :: "pyobj \<Rightarrow> bool"
  from_type :: "pyobj \<Rightarrow> ValueType"
  is_json_serializable :: "pyobj \<Rightarrow> bool"
  py_str :: "pyobj \<Rightarrow> string"

section \<open>Errors\<close>

text \<open>
  \<^verbatim>\<open>
  class DynamicListError(UserErrorException):
      def __init__(self, message):
          msg = (
              f"Unable to display list of items due to '{message}'. \nPlease contact the tool author/support team "
              f"for troubleshooting assistance."
          )
          super().__init__(msg, target=ErrorTarget.FUNCTION_PATH)

  class ListFunctionResponseError(DynamicListError): pass
  class FunctionPathValidationError(DynamicListError): pass
  \<close>
  An exception is its class and its message, the text that \<^verbatim>\<open>str(e)\<close> gives.
\<close>

datatype error =
    ListFunctionResponseError string
  | FunctionPathValidationError string
  | PyException string string
    \<comment> \<open>any other exception deriving from \<^verbatim>\<open>Exception\<close>: the class name and the message\<close>


definition DynamicListError_msg :: "string \<Rightarrow> string" where
  "DynamicListError_msg message =
     ''Unable to display list of items due to '' @ [CHR 0x27] @ message @ [CHR 0x27] @ ''. '' @
     [CHR 0x0A] @ ''Please contact the tool author/support team for troubleshooting assistance.''"

definition raise_ListFunctionResponseError :: "string \<Rightarrow> error + 'a" where
  "raise_ListFunctionResponseError message = Inl (ListFunctionResponseError (DynamicListError_msg message))"


fun for_each :: "('a \<Rightarrow> error + unit) \<Rightarrow> 'a list \<Rightarrow> error + unit" where
  \<comment> \<open>a \<^verbatim>\<open>for\<close> loop whose body may raise\<close>
  "for_each body [] = Inr ()"
| "for_each body (x # xs) = (case body x of Inl e \<Rightarrow> Inl e | Inr u \<Rightarrow> for_each body xs)"

section \<open>resolve_annotation\<close>

text \<open>
  \<^verbatim>\<open>
  def resolve_annotation(anno) -> Union[str, list]:
      origin = get_origin(anno)
      if origin != Union:
          return anno
      args = [arg for arg in get_args(anno) if arg != type(None)]
      return args[0] if len(args) == 1 else args
  \<close>
\<close>

definition resolve_annotation :: "pyobj \<Rightarrow> pyobj" where
  "resolve_annotation anno =
     (let origin = get_origin anno in
      if origin \<noteq> typing_Union then anno
      else
        let args = filter (\<lambda>arg. arg \<noteq> PBuiltin NoneType) (get_args anno) in
        if length args = 1 then args ! 0 else PList args)"

section \<open>validate_dynamic_list_func_response_type\<close>

text \<open>
  \<^verbatim>\<open>
  def validate_dynamic_list_func_response_type(response: Any, f: str):
      if not response:
          raise ListFunctionResponseError(f"{f} response can not be empty.")
      if not isinstance(response, List):
          raise ListFunctionResponseError(f"{f} response must be a list.")
      for item in response:
          if not isinstance(item, Dict):
              raise ListFunctionResponseError(f"{f} response must be a list of dict. {item} is not a dict.")
          if "value" not in item:
              raise ListFunctionResponseError(f"{f} response dict must have 'value' key.")
          for key, value in item.items():
              if not isinstance(key, str):
                  raise ListFunctionResponseError(f"{f} response dict key must be a string. {key} is not a string.")
              if not is_json_serializable(value):
                  raise ListFunctionResponseError(f"{f} response dict value {value} is not json serializable.")
              if not isinstance(value, (str, int, float, list, Dict)):
                  raise ListFunctionResponseError(
                      f"{f} response dict value must be a string, int, float, list or dict. {value} is not supported."
                  )
  \<close>
\<close>

definition validate_entry :: "externals \<Rightarrow> string \<Rightarrow> pyobj \<times> pyobj \<Rightarrow> error + unit" where
  \<comment> \<open>the body of the loop over \<^verbatim>\<open>item.items()\<close>\<close>
  "validate_entry ext f kv =
     (case kv of (key, value) \<Rightarrow>
        if \<not> isinstance key [StrT] then
          raise_ListFunctionResponseError
            (f @ '' response dict key must be a string. '' @ py_str ext key @ '' is not a string.'')
        else if \<not> is_json_serializable ext value then
          raise_ListFunctionResponseError
            (f @ '' response dict value '' @ py_str ext value @ '' is not json serializable.'')
        else if \<not> isinstance value [StrT, IntT, FloatT, ListT, DictT] then
          raise_ListFunctionResponseError
            (f @ '' response dict value must be a string, int, float, list or dict. '' @
             py_str ext value @ '' is not supported.'')
        else Inr ())"

definition validate_item :: "externals \<Rightarrow> string \<Rightarrow> pyobj \<Rightarrow> error + unit" where
  \<comment> \<open>the body of the loop over \<^verbatim>\<open>response\<close>\<close>
  "validate_item ext f item =
     (if \<not> isinstance item [DictT] then
        raise_ListFunctionResponseError
          (f @ '' response must be a list of dict. '' @ py_str ext item @ '' is not a dict.'')
      else if PStr ''value'' \<notin> set (map fst (dict_items item)) then
        raise_ListFunctionResponseError
          (f @ '' response dict must have '' @ [CHR 0x27] @ ''value'' @ [CHR 0x27] @ '' key.'')
      else for_each (validate_entry ext f) (dict_items item))"

definition validate_dynamic_list_func_response_type :: "externals \<Rightarrow> pyobj \<Rightarrow> string \<Rightarrow> error + unit" where
  "validate_dynamic_list_func_response_type ext response f =
     (if \<not> truthy response then
        raise_ListFunctionResponseError (f @ '' response can not be empty.'')
      else if \<not> isinstance response [ListT] then
        raise_ListFunctionResponseError (f @ '' response must be a list.'')
      else for_each (validate_item ext f) (list_items response))"

text \<open>
  What makes a response fail. A value is of an allowed type when it is an instance of
  \<^verbatim>\<open>str\<close>, \<^verbatim>\<open>int\<close>, \<^verbatim>\<open>float\<close>, \<^verbatim>\<open>list\<close> or \<^verbatim>\<open>dict\<close>, an instance of a subclass
  included.
\<close>

definition entry_violates :: "externals \<Rightarrow> pyobj \<times> pyobj \<Rightarrow> bool" where
  "entry_violates ext kv =
     (\<not> isinstance (fst kv) [StrT] \<or>
      \<not> is_json_serializable ext (snd kv) \<or>
      \<not> isinstance (snd kv) [StrT, IntT, FloatT, ListT, DictT])"

definition item_violates :: "externals \<Rightarrow> pyobj \<Rightarrow> bool" where
  "item_violates ext item =
     (\<not> isinstance item [DictT] \<or>
      PStr ''value'' \<notin> set (map fst (dict_items item)) \<or>
      list_ex (entry_violates ext) (dict_items item))"

definition response_violates :: "externals \<Rightarrow> pyobj \<Rightarrow> bool" where
  "response_violates ext response =
     (\<not> truthy response \<or>
      \<not> isinstance response [ListT] \<or>
      list_ex (item_violates ext) (list_items response))"

text \<open>
  The same contract with the allowed types read as the set of types itself: the type of the
  value is one of \<^verbatim>\<open>str\<close>, \<^verbatim>\<open>int\<close>, \<^verbatim>\<open>float\<close>, \<^verbatim>\<open>list\<close>, \<^verbatim>\<open>dict\<close>.
\<close>

definition type_among :: "pyobj \<Rightarrow> builtin list \<Rightarrow> bool" where
  \<comment> \<open>\<^verbatim>\<open>type(obj) in (c1, c2, ...)\<close>\<close>
  "type_among obj classes = (type_of obj \<in> set (map PBuiltin classes))"

definition entry_violates_by_type :: "externals \<Rightarrow> pyobj \<times> pyobj \<Rightarrow> bool" where
  "entry_violates_by_type ext kv =
     (\<not> isinstance (fst kv) [StrT] \<or>
      \<not> is_json_serializable ext (snd kv) \<or>
      \<not> type_among (snd kv) [StrT, IntT, FloatT, ListT, DictT])"

definition item_violates_by_type :: "externals \<Rightarrow> pyobj \<Rightarrow> bool" where
  "item_violates_by_type ext item =
     (\<not> isinstance item [DictT] \<or>
      PStr ''value'' \<notin> set (map fst (dict_items item)) \<or>
      list_ex (entry_violates_by_type ext) (dict_items item))"

definition response_violates_by_type :: "externals \<Rightarrow> pyobj \<Rightarrow> bool" where
  "response_violates_by_type ext response =
     (\<not> truthy response \<or>
      \<not> isinstance response [ListT] \<or>
      list_ex (item_violates_by_type ext) (list_items response))"

definition is_response_error :: "error + unit \<Rightarrow> bool" where
  "is_response_error r = (case r of Inl (ListFunctionResponseError msg) \<Rightarrow> True | _ \<Rightarrow> False)"

section \<open>append_workspace_triple_to_func_input_params\<close>

datatype param_kind =
    POSITIONAL_ONLY | POSITIONAL_OR_KEYWORD | VAR_POSITIONAL | KEYWORD_ONLY | VAR_KEYWORD

record param =
  annotation :: pyobj
  default_value :: pyobj
    \<comment> \<open>\<^verbatim>\<open>param.default\<close>; \<^verbatim>\<open>inspect.Parameter.empty\<close> when the parameter has none\<close>
  kind :: param_kind

text \<open>
  \<^verbatim>\<open>
  def append_workspace_triple_to_func_input_params(
      func_sig_params: Dict, func_input_params_dict: Dict, ws_triple_dict: Dict[str, str]
  ):
      ws_triple_dict = ws_triple_dict if ws_triple_dict is not None else {}
      func_input_params_dict = func_input_params_dict if func_input_params_dict is not None else {}
      has_kwargs_param = any([param.kind == inspect.Parameter.VAR_KEYWORD for _, param in func_sig_params.items()])
      if has_kwargs_param is False:
          avail_ws_info_dict = {k: v for k, v in ws_triple_dict.items() if k in set(func_sig_params.keys())}
      else:
          avail_ws_info_dict = ws_triple_dict
      combined_func_input_params = dict(avail_ws_info_dict, **func_input_params_dict)
      return combined_func_input_params
  \<close>
  The signature is the ordered mapping of \<^verbatim>\<open>inspect\<close>, a list of names with their
  parameters. The two argument dicts are maps, and \<^verbatim>\<open>None\<close> for either is \<open>None\<close> here.
\<close>

definition the_dict :: "('k \<rightharpoonup> 'v) option \<Rightarrow> ('k \<rightharpoonup> 'v)" where
  \<comment> \<open>\<^verbatim>\<open>d if d is not None else {}\<close>\<close>
  "the_dict d = (case d of Some m \<Rightarrow> m | None \<Rightarrow> Map.empty)"

definition has_kwargs_param :: "(string \<times> param) list \<Rightarrow> bool" where
  "has_kwargs_param func_sig_params = list_ex (\<lambda>(n, p). kind p = VAR_KEYWORD) func_sig_params"

definition append_workspace_triple_to_func_input_params ::
  "(string \<times> param) list \<Rightarrow> (string \<rightharpoonup> pyobj) option \<Rightarrow> (string \<rightharpoonup> pyobj) option \<Rightarrow> (string \<rightharpoonup> pyobj)" where
  "append_workspace_triple_to_func_input_params func_sig_params func_input_params_dict ws_triple_dict =
     (let ws = the_dict ws_triple_dict;
          user = the_dict func_input_params_dict;
          avail_ws_info_dict =
            (if has_kwargs_param func_sig_params = False
             then ws |` set (map fst func_sig_params)
             else ws)
      in avail_ws_info_dict ++ user)"

section \<open>An instance of the parameters\<close>

text \<open>
  One choice of the imported functions, to run the model on concrete inputs: two builtin
  connection classes, one custom strong type connection class, and a serializer that takes
  the JSON types.
\<close>

definition sample_externals :: externals where
  "sample_externals =
     \<lparr> is_connection_value =
         (\<lambda>t. t \<in> set [PClass ''AzureOpenAIConnection'', PClass ''CustomConnection'', PClass ''MyConnection'']),
       is_custom_strong_type = (\<lambda>t. t = PClass ''MyConnection''),
       from_type =
         (\<lambda>t. if t = PBuiltin StrT then VT_STRING else if t = PBuiltin IntT then VT_INT else VT_OBJECT),
       is_json_serializable = (\<lambda>v. isinstance v [NoneType, IntT, FloatT, StrT, ListT, DictT]),
       py_str = (\<lambda>v. case v of PStr s \<Rightarrow> s | _ \<Rightarrow> ''?'') \<rparr>"

definition sample_signature :: "(string \<times> param) list" where
  \<comment> \<open>\<^verbatim>\<open>def f(subscription_id: str, prefix: str)\<close>\<close>
  "sample_signature =
     [(''subscription_id'', \<lparr>annotation = PBuiltin StrT, default_value = PEmpty, kind = POSITIONAL_OR_KEYWORD\<rparr>),
      (''prefix'', \<lparr>annotation = PBuiltin StrT, default_value = PEmpty, kind = POSITIONAL_OR_KEYWORD\<rparr>)]"

definition sample_ws_triple :: "string \<rightharpoonup> pyobj" where
  "sample_ws_triple =
     [''subscription_id'' \<mapsto> PStr ''sub'', ''resource_group_name'' \<mapsto> PStr ''rg'',
      ''workspace_name'' \<mapsto> PStr ''ws'']"

section \<open>value_to_str\<close>

text \<open>
  \<^verbatim>\<open>
  def value_to_str(val):
      if val is inspect.Parameter.empty:
          return None
      if val is None:
          return ""
      if isinstance(val, Enum):
          return val.value
      return str(val)
  \<close>
  The result \<open>None\<close> is Python's \<^verbatim>\<open>None\<close>.
\<close>

fun is_Enum_member :: "pyobj \<Rightarrow> bool" where
  \<comment> \<open>\<^verbatim>\<open>isinstance(val, Enum)\<close>\<close>
  "is_Enum_member (PEnumMember c v) = True"
| "is_Enum_member val = False"

fun enum_value :: "pyobj \<Rightarrow> pyobj" where
  \<comment> \<open>\<^verbatim>\<open>val.value\<close> of a member\<close>
  "enum_value (PEnumMember c v) = v"
| "enum_value val = PNone"

definition value_to_str :: "externals \<Rightarrow> pyobj \<Rightarrow> pyobj option" where
  "value_to_str ext val =
     (if val = PEmpty then None
      else if val = PNone then Some (PStr '''')
      else if is_Enum_member val then Some (enum_value val)
      else Some (PStr (py_str ext val)))"

section \<open>param_to_definition\<close>

text \<open>
  \<^verbatim>\<open>InputDefinition\<close> is built with the five fields below. An element of \<^verbatim>\<open>type\<close> is a
  string (a class name, or \<^verbatim>\<open>"CustomConnection"\<close>) or a member of \<^verbatim>\<open>ValueType\<close>.
\<close>

datatype type_tag = TypeName string | Tag ValueType

record InputDefinition =
  def_type :: "type_tag list"
  def_default :: "pyobj option"
  def_description :: "string option"
  def_enum :: "string list option"
  def_custom_type :: "string list option"

fun builtin_name :: "builtin \<Rightarrow> string" where
  "builtin_name NoneType = ''NoneType''"
| "builtin_name BoolT = ''bool''"
| "builtin_name IntT = ''int''"
| "builtin_name FloatT = ''float''"
| "builtin_name StrT = ''str''"
| "builtin_name ListT = ''list''"
| "builtin_name TupleT = ''tuple''"
| "builtin_name DictT = ''dict''"
| "builtin_name TypeT = ''type''"
| "builtin_name EnumMetaT = ''EnumMeta''"

fun name_of :: "pyobj \<Rightarrow> string option" where
  \<comment> \<open>\<^verbatim>\<open>obj.__name__\<close>: classes have it; \<open>None\<close> stands for the \<^verbatim>\<open>AttributeError\<close> of an
      object without it\<close>
  "name_of PEmpty = Some ''_empty''"
| "name_of (PBuiltin c) = Some (builtin_name c)"
| "name_of (PClass n) = Some n"
| "name_of (PEnumClass n vs) = Some n"
| "name_of obj = None"

definition no_name :: error where
  "no_name = PyException ''AttributeError'' ''__name__''"

text \<open>
  \<^verbatim>\<open>
              custom_connection_added = False
              typ = []
              custom_type_conn = []
              for t in value_type:
                  if ConnectionType.is_custom_strong_type(t):
                      if not custom_connection_added:
                          custom_connection_added = True
                          typ.append("CustomConnection")
                      custom_type_conn.append(t.__name__)
                  else:
                      if t.__name__ != "CustomConnection":
                          typ.append(t.__name__)
                      elif not custom_connection_added:
                          custom_connection_added = True
                          typ.append(t.__name__)
  \<close>
  The loop, from the state \<^verbatim>\<open>(custom_connection_added, typ, custom_type_conn)\<close> before the
  candidates that are left to the two lists after the last one.
\<close>

fun collect_connection_types ::
  "externals \<Rightarrow> pyobj list \<Rightarrow> bool \<Rightarrow> type_tag list \<Rightarrow> string list \<Rightarrow> error + (type_tag list \<times> string list)" where
  "collect_connection_types ext [] custom_connection_added typ custom_type_conn =
     Inr (typ, custom_type_conn)"
| "collect_connection_types ext (t # ts) custom_connection_added typ custom_type_conn =
     (if is_custom_strong_type ext t then
        (case name_of t of
           None \<Rightarrow> Inl no_name
         | Some n \<Rightarrow>
             if \<not> custom_connection_added
             then collect_connection_types ext ts True (typ @ [TypeName ''CustomConnection'']) (custom_type_conn @ [n])
             else collect_connection_types ext ts custom_connection_added typ (custom_type_conn @ [n]))
      else
        (case name_of t of
           None \<Rightarrow> Inl no_name
         | Some n \<Rightarrow>
             if n \<noteq> ''CustomConnection''
             then collect_connection_types ext ts custom_connection_added (typ @ [TypeName n]) custom_type_conn
             else if \<not> custom_connection_added
             then collect_connection_types ext ts True (typ @ [TypeName n]) custom_type_conn
             else collect_connection_types ext ts custom_connection_added typ custom_type_conn))"

text \<open>
  \<^verbatim>\<open>
  def param_to_definition(param, gen_custom_type_conn=False) -> (InputDefinition, bool):
      default_value = param.default
      value_type = resolve_annotation(param.annotation)
      enum = None
      custom_type_conn = None
      if default_value is not inspect.Parameter.empty and value_type == inspect.Parameter.empty:
          value_type = default_value.__class__ if isinstance(default_value, Enum) else type(default_value)
      if isinstance(value_type, EnumMeta):
          enum = [str(option.value) for option in value_type]
          value_type = str
      is_connection = False
      if ConnectionType.is_connection_value(value_type):
          if ConnectionType.is_custom_strong_type(value_type):
              typ = ["CustomConnection"]
              custom_type_conn = [value_type.__name__]
          else:
              typ = [value_type.__name__]
          is_connection = True
      elif isinstance(value_type, list):
          if not all(ConnectionType.is_connection_value(t) for t in value_type):
              typ = [ValueType.OBJECT]
          else:
              (the loop above)
              is_connection = True
      else:
          typ = [ValueType.from_type(value_type)]
      if not gen_custom_type_conn:
          custom_type_conn = None
      return (
          InputDefinition(type=typ, default=value_to_str(default_value), description=None,
                          enum=enum, custom_type=custom_type_conn),
          is_connection,
      )
  \<close>
\<close>

definition infer_value_type :: "pyobj \<Rightarrow> pyobj \<Rightarrow> pyobj" where
  \<comment> \<open>the value type after the annotation is resolved and, where there is none, the class of
      the default is taken (\<^verbatim>\<open>__class__\<close> and \<^verbatim>\<open>type\<close> agree on every object)\<close>
  "infer_value_type anno default_val =
     (let value_type = resolve_annotation anno in
      if default_val \<noteq> PEmpty \<and> value_type = PEmpty
      then (if is_Enum_member default_val then type_of default_val else type_of default_val)
      else value_type)"

fun enum_options :: "externals \<Rightarrow> pyobj \<Rightarrow> string list option" where
  \<comment> \<open>\<^verbatim>\<open>[str(option.value) for option in value_type]\<close> when \<^verbatim>\<open>value_type\<close> is an instance of
      \<^verbatim>\<open>EnumMeta\<close>, and \<^verbatim>\<open>None\<close> otherwise\<close>
  "enum_options ext (PEnumClass n vs) = Some (map (py_str ext) vs)"
| "enum_options ext value_type = None"

fun classify_value_type ::
  "externals \<Rightarrow> pyobj \<Rightarrow> error + (type_tag list \<times> string list option \<times> bool)" where
  \<comment> \<open>the \<^verbatim>\<open>if\<close>/\<^verbatim>\<open>elif\<close>/\<^verbatim>\<open>else\<close> on the value type: \<^verbatim>\<open>typ\<close>, \<^verbatim>\<open>custom_type_conn\<close> and
      \<^verbatim>\<open>is_connection\<close> after it\<close>
  "classify_value_type ext value_type =
     (if is_connection_value ext value_type then
        (if is_custom_strong_type ext value_type then
           (case name_of value_type of
              None \<Rightarrow> Inl no_name
            | Some n \<Rightarrow> Inr ([TypeName ''CustomConnection''], Some [n], True))
         else
           (case name_of value_type of
              None \<Rightarrow> Inl no_name
            | Some n \<Rightarrow> Inr ([TypeName n], None, True)))
      else
        (case value_type of
           PList ts \<Rightarrow>
             if \<not> list_all (is_connection_value ext) ts then Inr ([Tag VT_OBJECT], None, False)
             else
               (case collect_connection_types ext ts False [] [] of
                  Inl e \<Rightarrow> Inl e
                | Inr (typ, custom_type_conn) \<Rightarrow> Inr (typ, Some custom_type_conn, True))
         | _ \<Rightarrow> Inr ([Tag (from_type ext value_type)], None, False)))"

definition param_to_definition :: "externals \<Rightarrow> param \<Rightarrow> bool \<Rightarrow> error + (InputDefinition \<times> bool)" where
  "param_to_definition ext p gen_custom_type_conn =
     (let default_val = default_value p;
          value_type = infer_value_type (annotation p) default_val;
          enum = enum_options ext value_type;
          value_type = (if enum \<noteq> None then PBuiltin StrT else value_type)
      in case classify_value_type ext value_type of
           Inl e \<Rightarrow> Inl e
         | Inr (typ, custom_type_conn, is_connection) \<Rightarrow>
             Inr (\<lparr> def_type = typ,
                    def_default = value_to_str ext default_val,
                    def_description = None,
                    def_enum = enum,
                    def_custom_type = (if \<not> gen_custom_type_conn then None else custom_type_conn) \<rparr>,
                  is_connection))"

text \<open>
  The tag list of the loop as the specification words it. Each candidate stands for one
  tag: a custom strong type connection for the marker \<^verbatim>\<open>"CustomConnection"\<close>, any other
  candidate for its own name. The marker is kept where it first occurs and dropped
  afterwards; the names of the custom strong type connections are collected in order.
\<close>

fun once :: "'a \<Rightarrow> 'a list \<Rightarrow> 'a list" where
  \<comment> \<open>the list without the occurrences of \<open>m\<close> after the first\<close>
  "once m [] = []"
| "once m (x # xs) = (if x = m then x # filter (\<lambda>y. y \<noteq> m) xs else x # once m xs)"

definition candidate_tag :: "externals \<Rightarrow> pyobj \<times> string \<Rightarrow> string" where
  "candidate_tag ext tn = (if is_custom_strong_type ext (fst tn) then ''CustomConnection'' else snd tn)"

definition connection_tags :: "externals \<Rightarrow> pyobj list \<Rightarrow> string list \<Rightarrow> type_tag list" where
  "connection_tags ext ts ns =
     map TypeName (once ''CustomConnection'' (map (candidate_tag ext) (zip ts ns)))"

definition custom_type_names :: "externals \<Rightarrow> pyobj list \<Rightarrow> string list \<Rightarrow> string list" where
  "custom_type_names ext ts ns = map snd (filter (\<lambda>tn. is_custom_strong_type ext (fst tn)) (zip ts ns))"

definition plain_param :: "pyobj \<Rightarrow> param" where
  \<comment> \<open>a parameter with an annotation and no default\<close>
  "plain_param anno = \<lparr>annotation = anno, default_value = PEmpty, kind = POSITIONAL_OR_KEYWORD\<rparr>"

section \<open>Python dicts in insertion order\<close>

fun dict_set :: "('k \<times> 'v) list \<Rightarrow> 'k \<Rightarrow> 'v \<Rightarrow> ('k \<times> 'v) list" where
  \<comment> \<open>\<^verbatim>\<open>d[k] = v\<close>: a key that is there keeps its place, a new key goes to the end\<close>
  "dict_set [] k v = [(k, v)]"
| "dict_set (kv # d) k v = (if fst kv = k then (k, v) # d else kv # dict_set d k v)"

definition dict_update :: "('k \<times> 'v) list \<Rightarrow> ('k \<times> 'v) list \<Rightarrow> ('k \<times> 'v) list" where
  \<comment> \<open>\<^verbatim>\<open>d.update(items)\<close>\<close>
  "dict_update d items = foldl (\<lambda>d kv. dict_set d (fst kv) (snd kv)) d items"

section \<open>function_to_interface\<close>

text \<open>
  A callable with what the module reads of it: \<^verbatim>\<open>__name__\<close>, \<^verbatim>\<open>__qualname__\<close>, the result of
  \<^verbatim>\<open>inspect.getdoc\<close>, \<^verbatim>\<open>__module__\<close>, the parameters of \<^verbatim>\<open>inspect.signature\<close> in order, and
  the attribute \<^verbatim>\<open>__original_function\<close> where it has one.
\<close>

datatype pycallable =
  PyCallable (f_name: string) (f_qualname: string) (f_doc: "string option") (f_module: string)
    (f_signature: "(string \<times> param) list") (f_original_function: "pycallable option")

text \<open>
  \<^verbatim>\<open>
  def function_to_interface(f: Callable, initialize_inputs=None, gen_custom_type_conn=False) -> tuple:
      sign = inspect.signature(f)
      all_inputs = {}
      input_defs = {}
      connection_types = []
      if initialize_inputs:
          if any(k for k in initialize_inputs if k in sign.parameters):
              raise Exception(f'Duplicate inputs found from {f.__name__!r} and "__init__()"!')
          all_inputs = {**initialize_inputs}
      all_inputs.update(
          {
              k: v
              for k, v in sign.parameters.items()
              if k != "self" and v.kind != v.VAR_KEYWORD and v.kind != v.VAR_POSITIONAL
          }
      )
      for k, v in all_inputs.items():
          input_def, is_connection = param_to_definition(v, gen_custom_type_conn=gen_custom_type_conn)
          input_defs[k] = input_def
          if is_connection:
              connection_types.append(input_def.type)
      outputs = {}
      return input_defs, outputs, connection_types
  \<close>
\<close>

fun describe_inputs ::
  "externals \<Rightarrow> bool \<Rightarrow> (string \<times> param) list \<Rightarrow> (string \<times> InputDefinition) list \<Rightarrow> type_tag list list \<Rightarrow>
     error + ((string \<times> InputDefinition) list \<times> type_tag list list)" where
  \<comment> \<open>the loop over \<^verbatim>\<open>all_inputs.items()\<close>, from \<^verbatim>\<open>input_defs\<close> and \<^verbatim>\<open>connection_types\<close> so far\<close>
  "describe_inputs ext gen [] input_defs connection_types = Inr (input_defs, connection_types)"
| "describe_inputs ext gen (kv # rest) input_defs connection_types =
     (case param_to_definition ext (snd kv) gen of
        Inl e \<Rightarrow> Inl e
      | Inr (input_def, is_connection) \<Rightarrow>
          describe_inputs ext gen rest (dict_set input_defs (fst kv) input_def)
            (if is_connection then connection_types @ [def_type input_def] else connection_types))"

definition repr_str :: "string \<Rightarrow> string" where
  \<comment> \<open>\<^verbatim>\<open>repr\<close> of a string without quotes, backslashes or control characters\<close>
  "repr_str s = [CHR 0x27] @ s @ [CHR 0x27]"

definition function_to_interface ::
  "externals \<Rightarrow> pycallable \<Rightarrow> (string \<times> param) list option \<Rightarrow> bool \<Rightarrow>
     error + ((string \<times> InputDefinition) list \<times> (string \<times> pyobj) list \<times> type_tag list list)" where
  "function_to_interface ext f initialize_inputs gen_custom_type_conn =
     (let sign = f_signature f;
          own = filter (\<lambda>kv. fst kv \<noteq> ''self'' \<and> kind (snd kv) \<noteq> VAR_KEYWORD \<and> kind (snd kv) \<noteq> VAR_POSITIONAL) sign;
          init = (case initialize_inputs of Some d \<Rightarrow> d | None \<Rightarrow> [])
      in if init \<noteq> [] \<and> list_ex (\<lambda>k. k \<noteq> []) (filter (\<lambda>k. k \<in> set (map fst sign)) (map fst init))
         then Inl (PyException ''Exception''
                (''Duplicate inputs found from '' @ repr_str (f_name f) @ '' and '' @ [CHR 0x22] @
                 ''__init__()'' @ [CHR 0x22] @ ''!''))
         else
           (case describe_inputs ext gen_custom_type_conn (dict_update init own) [] [] of
              Inl e \<Rightarrow> Inl e
            | Inr (input_defs, connection_types) \<Rightarrow> Inr (input_defs, [], connection_types)))"

section \<open>function_to_tool_definition\<close>

function str_replace :: "string \<Rightarrow> string \<Rightarrow> string \<Rightarrow> string" where
  \<comment> \<open>\<^verbatim>\<open>s.replace(old, new)\<close>: every occurrence of \<^verbatim>\<open>old\<close>, found from the left without overlap\<close>
  "str_replace old new s =
     (if old = [] then new @ concat (map (\<lambda>c. c # new) s)
      else if s = [] then []
      else if prefix old s then new @ str_replace old new (drop (length old) s)
      else hd s # str_replace old new (tl s))"
  by pat_completeness auto
termination
  by (relation "measure (\<lambda>(old, new, s). length s)") auto

declare str_replace.simps [simp del]

record Tool =
  tool_name :: string
  tool_type :: "string option"
  tool_inputs :: "(string \<times> InputDefinition) list"
  tool_outputs :: "(string \<times> pyobj) list"
  tool_description :: "string option"
  tool_module :: string
  tool_class_name :: "string option"
  tool_function :: string
  tool_is_builtin :: bool
  tool_stage :: string

text \<open>
  \<^verbatim>\<open>
  def function_to_tool_definition(f: Callable, type=None, initialize_inputs=None) -> Tool:
      if hasattr(f, "__original_function"):
          f = f.__original_function
      inputs, outputs, _ = function_to_interface(f, initialize_inputs)
      # Hack to get class name
      class_name = None
      if "." in f.__qualname__:
          class_name = f.__qualname__.replace(f".{f.__name__}", "")
      meta_dict = {
          "name": f.__qualname__,
          "description": inspect.getdoc(f) or None,
          "inputs": inputs,
          "outputs": outputs,
          "class_name": class_name,
          "function": f.__name__,
      }
      return Tool(type=type, module=f.__module__, **meta_dict, is_builtin=True, stage="test")
  \<close>
\<close>

definition class_name_of :: "pycallable \<Rightarrow> string option" where
  \<comment> \<open>\<^verbatim>\<open>class_name\<close> after the \<^verbatim>\<open>if\<close>\<close>
  "class_name_of f =
     (if CHR ''.'' \<in> set (f_qualname f)
      then Some (str_replace (''.'' @ f_name f) [] (f_qualname f))
      else None)"

definition function_to_tool_definition ::
  "externals \<Rightarrow> pycallable \<Rightarrow> string option \<Rightarrow> (string \<times> param) list option \<Rightarrow> error + Tool" where
  "function_to_tool_definition ext f0 type initialize_inputs =
     (let f = (case f_original_function f0 of Some g \<Rightarrow> g | None \<Rightarrow> f0) in
      case function_to_interface ext f initialize_inputs False of
        Inl e \<Rightarrow> Inl e
      | Inr (inputs, outputs, connection_types) \<Rightarrow>
          Inr \<lparr> tool_name = f_qualname f,
                tool_type = type,
                tool_inputs = inputs,
                tool_outputs = outputs,
                tool_description = (case f_doc f of Some d \<Rightarrow> (if d = [] then None else Some d) | None \<Rightarrow> None),
                tool_module = f_module f,
                tool_class_name = class_name_of f,
                tool_function = f_name f,
                tool_is_builtin = True,
                tool_stage = ''test'' \<rparr>)"

definition nested_method :: pycallable where
  \<comment> \<open>\<^verbatim>\<open>Outer.runner.run\<close> of
      \<^verbatim>\<open>class Outer:\<close> \<^verbatim>\<open>class runner:\<close> \<^verbatim>\<open>def run(self, text: str): ...\<close>\<close>
  "nested_method =
     PyCallable ''run'' ''Outer.runner.run'' None ''my_tools''
       [(''self'', plain_param PEmpty), (''text'', plain_param (PBuiltin StrT))] None"

definition plain_method :: pycallable where
  \<comment> \<open>\<^verbatim>\<open>Outer.run\<close> of \<^verbatim>\<open>class Outer:\<close> \<^verbatim>\<open>def run(self, text: str): ...\<close>\<close>
  "plain_method =
     PyCallable ''run'' ''Outer.run'' None ''my_tools''
       [(''self'', plain_param PEmpty), (''text'', plain_param (PBuiltin StrT))] None"

section \<open>load_function_from_function_path\<close>








section \<open>Strings and the image pattern\<close>

definition is_space :: "char \<Rightarrow> bool" where
  \<comment> \<open>the characters below 256 that \<^verbatim>\<open>str.isspace\<close> and the pattern \<^verbatim>\<open>\s\<close> take: tab to
      carriage return, the four separators, the space, NEL and the no-break space\<close>
  "is_space c =
     (let n = (of_char c :: nat)
      in (9 \<le> n \<and> n \<le> 13) \<or> (28 \<le> n \<and> n \<le> 32) \<or> n = 133 \<or> n = 160)"

definition strip :: "string \<Rightarrow> string" where
  \<comment> \<open>\<^verbatim>\<open>s.strip()\<close>\<close>
  "strip s = rev (dropWhile is_space (rev (dropWhile is_space s)))"

primrec find_at :: "string \<Rightarrow> string \<Rightarrow> nat \<Rightarrow> int" where
  "find_at sub [] i = (if sub = [] then int i else - 1)"
| "find_at sub (c # cs) i = (if prefix sub (c # cs) then int i else find_at sub cs (Suc i))"

definition str_find :: "string \<Rightarrow> string \<Rightarrow> int" where
  \<comment> \<open>\<^verbatim>\<open>s.find(sub)\<close>: the lowest index where \<^verbatim>\<open>sub\<close> occurs in \<^verbatim>\<open>s\<close>, or \<^verbatim>\<open>-1\<close>\<close>
  "str_find s sub = find_at sub s 0"

text \<open>
  The pattern of the source,
  \<^verbatim>\<open>r"\!\[(\s*image\s*)\]\(\{\{\s*([^{}]+)\s*\}\}\)"\<close>,
  is a sequence of literals, greedy repetitions of a character class and the borders of
  its two groups. Such a sequence is matched as \<^verbatim>\<open>re\<close> does it: from left to right, a
  repetition taking the longest run first and giving characters back one at a time when the
  rest of the pattern does not match.
\<close>

datatype charclass = Whitespace | NotBrace

fun in_class :: "charclass \<Rightarrow> char \<Rightarrow> bool" where
  "in_class Whitespace c = is_space c"
| "in_class NotBrace c = (c \<noteq> CHR ''{'' \<and> c \<noteq> CHR ''}'')"

datatype item = Lit string | Star charclass | Plus charclass | GroupOpen nat | GroupClose nat

definition image_pattern :: "item list" where
  "image_pattern =
     [Lit ''!['',
      GroupOpen 1, Star Whitespace, Lit ''image'', Star Whitespace, GroupClose 1,
      Lit '']({{'',
      Star Whitespace,
      GroupOpen 2, Plus NotBrace, GroupClose 2,
      Star Whitespace,
      Lit ''}})'']"

primrec longest_first :: "(nat \<Rightarrow> 'a option) \<Rightarrow> nat \<Rightarrow> nat \<Rightarrow> 'a option" where
  \<comment> \<open>the first success among the lengths \<open>lo + n\<close>, \<open>lo + n - 1\<close>, ..., \<open>lo\<close>\<close>
  "longest_first f lo 0 = f lo"
| "longest_first f lo (Suc n) =
     (case f (lo + Suc n) of Some r \<Rightarrow> Some r | None \<Rightarrow> longest_first f lo n)"

type_synonym groups = "nat \<Rightarrow> nat \<times> nat"

fun rmatch :: "item list \<Rightarrow> string \<Rightarrow> nat \<Rightarrow> groups \<Rightarrow> (nat \<times> groups) option" where
  \<comment> \<open>matches the items against the text \<open>s\<close> that starts at position \<open>pos\<close>; gives the
      position after the match and the span of every group\<close>
  "rmatch [] s pos g = Some (pos, g)"
| "rmatch (Lit l # r) s pos g =
     (if prefix l s then rmatch r (drop (length l) s) (pos + length l) g else None)"
| "rmatch (Star c # r) s pos g =
     longest_first (\<lambda>k. rmatch r (drop k s) (pos + k) g) 0 (length (takeWhile (in_class c) s))"
| "rmatch (Plus c # r) s pos g =
     (let n = length (takeWhile (in_class c) s)
      in if n = 0 then None else longest_first (\<lambda>k. rmatch r (drop k s) (pos + k) g) 1 (n - 1))"
| "rmatch (GroupOpen i # r) s pos g = rmatch r s pos (g(i := (pos, pos)))"
| "rmatch (GroupClose i # r) s pos g = rmatch r s pos (g(i := (fst (g i), pos)))"

declare rmatch.simps [simp del]

definition group :: "string \<Rightarrow> groups \<Rightarrow> nat \<Rightarrow> string" where
  \<comment> \<open>\<^verbatim>\<open>match.group(i)\<close>, for a match that starts at the head of \<open>s\<close>\<close>
  "group s g i = take (snd (g i) - fst (g i)) (drop (fst (g i)) s)"

function finditer :: "item list \<Rightarrow> string \<Rightarrow> (string \<times> string) list" where
  \<comment> \<open>\<^verbatim>\<open>re.finditer\<close>: the matches that do not overlap, from the left, each as its groups 1
      and 2; the search goes on after a match, and one character further where there is none\<close>
  "finditer pat s =
     (case rmatch pat s 0 (\<lambda>i. (0, 0)) of
        Some (e, g) \<Rightarrow>
          (group s g 1, group s g 2) # (if s = [] then [] else finditer pat (drop (max e 1) s))
      | None \<Rightarrow> (if s = [] then [] else finditer pat (tl s)))"
  by pat_completeness auto
termination
  by (relation "measure (\<lambda>(pat, s). length s)") auto

declare finditer.simps [simp del]

section \<open>get_inputs_for_prompt_template\<close>

fun ValueType_value :: "ValueType \<Rightarrow> string" where
  \<comment> \<open>Modelled from the spec: the values of the members of \<^verbatim>\<open>ValueType\<close>, which
      \<^verbatim>\<open>promptflow.contracts.tool\<close> declares and \<^verbatim>\<open>src/\<close> does not hold. The docstring of
      \<^verbatim>\<open>get_inputs_for_prompt_template\<close> shows \<^verbatim>\<open>ValueType.IMAGE\<close> for \<^verbatim>\<open>"image"\<close>.\<close>
  "ValueType_value VT_INT = ''int''"
| "ValueType_value VT_DOUBLE = ''double''"
| "ValueType_value VT_BOOL = ''bool''"
| "ValueType_value VT_STRING = ''string''"
| "ValueType_value VT_SECRET = ''secret''"
| "ValueType_value VT_PROMPT_TEMPLATE = ''prompt_template''"
| "ValueType_value VT_LIST = ''list''"
| "ValueType_value VT_OBJECT = ''object''"
| "ValueType_value VT_FILE_PATH = ''file_path''"
| "ValueType_value VT_IMAGE = ''image''"

definition ValueType_call :: "string \<Rightarrow> ValueType option" where
  \<comment> \<open>\<^verbatim>\<open>ValueType(value)\<close>: the member with that value; \<open>None\<close> stands for the
      \<^verbatim>\<open>ValueError\<close> of a value that no member has\<close>
  "ValueType_call v =
     find (\<lambda>m. ValueType_value m = v)
       [VT_INT, VT_DOUBLE, VT_BOOL, VT_STRING, VT_SECRET, VT_PROMPT_TEMPLATE, VT_LIST, VT_OBJECT,
        VT_FILE_PATH, VT_IMAGE]"

definition InputDefinition_of :: "type_tag list \<Rightarrow> InputDefinition" where
  \<comment> \<open>\<^verbatim>\<open>InputDefinition(type=...)\<close>, every other field at its default \<^verbatim>\<open>None\<close>\<close>
  "InputDefinition_of t =
     \<lparr> def_type = t, def_default = None, def_description = None, def_enum = None,
       def_custom_type = None \<rparr>"

text \<open>
  \<^verbatim>\<open>
  def get_inputs_for_prompt_template(template_str):
      env = Environment()
      template = env.parse(template_str)
      inputs = sorted(meta.find_undeclared_variables(template), key=lambda x: template_str.find(x))
      result_dict = {i: InputDefinition(type=[ValueType.STRING]) for i in inputs}

      # currently we only support image type
      pattern = r"\!\[(\s*image\s*)\]\(\{\{\s*([^{}]+)\s*\}\}\)"
      matches = re.finditer(pattern, template_str)

      for match in matches:
          input_name = match.group(2).strip()
          result_dict[input_name] = InputDefinition([ValueType(match.group(1).strip())])

      return result_dict
  \<close>
  The parser of \<^verbatim>\<open>jinja2\<close> is a parameter: for a template it raises, or gives the set of
  undeclared variables, as the list of its elements in the order the set is iterated in.
\<close>

fun apply_matches ::
  "(string \<times> InputDefinition) list \<Rightarrow> (string \<times> string) list \<Rightarrow> error + (string \<times> InputDefinition) list" where
  \<comment> \<open>the loop over the matches\<close>
  "apply_matches result_dict [] = Inr result_dict"
| "apply_matches result_dict (m # ms) =
     (let input_name = strip (snd m) in
      case ValueType_call (strip (fst m)) of
        None \<Rightarrow> Inl (PyException ''ValueError'' (strip (fst m)))
      | Some vt \<Rightarrow> apply_matches (dict_set result_dict input_name (InputDefinition_of [Tag vt])) ms)"

definition get_inputs_for_prompt_template ::
  "(string \<Rightarrow> error + string list) \<Rightarrow> string \<Rightarrow> error + (string \<times> InputDefinition) list" where
  "get_inputs_for_prompt_template find_undeclared_variables template_str =
     (case find_undeclared_variables template_str of
        Inl e \<Rightarrow> Inl e
      | Inr undeclared \<Rightarrow>
          let inputs = sort_key (\<lambda>x. str_find template_str x) undeclared;
              result_dict = dict_update [] (map (\<lambda>i. (i, InputDefinition_of [Tag VT_STRING])) inputs);
              matches = finditer image_pattern template_str
          in apply_matches result_dict matches)"

definition docstring_template :: string where
  "docstring_template =
     ''Prompt with image input ![image]({{image_input}}) and string input {{str_input}}''"

definition captured_names :: "string \<Rightarrow> string set" where
  \<comment> \<open>the tokens that the matches of the image pattern capture, stripped\<close>
  "captured_names template_str = (\<lambda>m. strip (snd m)) ` set (finditer image_pattern template_str)"

definition docstring_parse :: "string \<Rightarrow> error + string list" where
  \<comment> \<open>what the parser finds in the template of the docstring, the set iterated with
      \<^verbatim>\<open>str_input\<close> first\<close>
  "docstring_parse template_str = Inr [''str_input'', ''image_input'']"

definition attribute_template :: string where
  \<comment> \<open>an image whose source is the attribute \<^verbatim>\<open>b\<close> of the variable \<^verbatim>\<open>a\<close>\<close>
  "attribute_template = ''![image]({{a.b}})''"

definition attribute_parse :: "string \<Rightarrow> error + string list" where
  \<comment> \<open>what the parser finds in \<open>attribute_template\<close>: the one undeclared variable \<^verbatim>\<open>a\<close>\<close>
  "attribute_parse template_str = Inr [''a'']"

section \<open>Properties of resolve_annotation\<close>






section \<open>Properties of validate_dynamic_list_func_response_type\<close>

lemma for_each_Inr_iff: "for_each body xs = Inr () \<longleftrightarrow> (\<forall>x \<in> set xs. body x = Inr ())"
  by (induction xs) (auto split: sum.splits)

lemma for_each_error: "for_each body xs = Inl e \<Longrightarrow> \<exists>x \<in> set xs. body x = Inl e"
  by (induction xs) (auto split: sum.splits)

lemma validate_entry_Inr_iff: "validate_entry ext f kv = Inr () \<longleftrightarrow> \<not> entry_violates ext kv"
  by (cases kv) (simp add: validate_entry_def entry_violates_def raise_ListFunctionResponseError_def)

lemma validate_entry_error: "validate_entry ext f kv = Inl e \<Longrightarrow> is_response_error (Inl e)"
  by (cases kv)
    (auto simp: validate_entry_def raise_ListFunctionResponseError_def is_response_error_def
      split: if_splits)

lemma validate_item_Inr_iff: "validate_item ext f item = Inr () \<longleftrightarrow> \<not> item_violates ext item"
  by (simp add: validate_item_def item_violates_def raise_ListFunctionResponseError_def
      for_each_Inr_iff validate_entry_Inr_iff list_ex_iff)

lemma validate_item_error: "validate_item ext f item = Inl e \<Longrightarrow> is_response_error (Inl e)"
  by (auto simp: validate_item_def raise_ListFunctionResponseError_def is_response_error_def
      split: if_splits dest!: for_each_error validate_entry_error)

lemma validate_Inr_iff:
  "validate_dynamic_list_func_response_type ext response f = Inr () \<longleftrightarrow> \<not> response_violates ext response"
  by (simp add: validate_dynamic_list_func_response_type_def response_violates_def
      raise_ListFunctionResponseError_def for_each_Inr_iff validate_item_Inr_iff list_ex_iff)

lemma validate_error:
  "validate_dynamic_list_func_response_type ext response f = Inl e \<Longrightarrow> is_response_error (Inl e)"
  by (auto simp: validate_dynamic_list_func_response_type_def raise_ListFunctionResponseError_def
      is_response_error_def split: if_splits dest!: for_each_error validate_item_error)

text \<open>
  C3, as the code has it: the validator raises a \<^verbatim>\<open>ListFunctionResponseError\<close> if and
  only if the response violates the contract (it is falsy, or not a list, or one of its elements is not a dict,
  has no key \<^verbatim>\<open>"value"\<close>, has a key that is not a string, a value that is not JSON
  serializable, or a value that is no instance of \<^verbatim>\<open>str\<close>, \<^verbatim>\<open>int\<close>, \<^verbatim>\<open>float\<close>, \<^verbatim>\<open>list\<close>
  or \<^verbatim>\<open>dict\<close>); otherwise it returns. \<^verbatim>\<open>[{"value": 1}]\<close> is accepted wherever \<^verbatim>\<open>1\<close> is
  JSON serializable.
\<close>

theorem validate_raises_iff_violates:
  "(is_response_error (validate_dynamic_list_func_response_type ext response f)
      \<longleftrightarrow> response_violates ext response) \<and>
   (validate_dynamic_list_func_response_type ext response f = Inr ()
      \<longleftrightarrow> \<not> response_violates ext response) \<and>
   (is_json_serializable ext (PInt 1) \<longrightarrow>
      validate_dynamic_list_func_response_type ext (PList [PDict [(PStr ''value'', PInt 1)]]) f = Inr ())"
proof (intro conjI)
  show ok: "validate_dynamic_list_func_response_type ext response f = Inr ()
      \<longleftrightarrow> \<not> response_violates ext response"
    by (rule validate_Inr_iff)
  show "is_response_error (validate_dynamic_list_func_response_type ext response f)
      \<longleftrightarrow> response_violates ext response"
  proof (cases "validate_dynamic_list_func_response_type ext response f")
    case (Inl e)
    then show ?thesis using validate_error [OF Inl] ok by simp
  next
    case (Inr u)
    then show ?thesis using ok by (simp add: is_response_error_def)
  qed
  show "is_json_serializable ext (PInt 1) \<longrightarrow>
      validate_dynamic_list_func_response_type ext (PList [PDict [(PStr ''value'', PInt 1)]]) f = Inr ()"
    by (simp add: validate_Inr_iff response_violates_def item_violates_def entry_violates_def
        isinstance_def)
qed


theorem validate_raises_iff_violates_witness:
  "is_response_error (validate_dynamic_list_func_response_type sample_externals
      (PList [PDict [(PStr ''display_value'', PStr ''x'')]]) ''f'') \<and>
   is_response_error (validate_dynamic_list_func_response_type sample_externals (PList []) ''f'') \<and>
   validate_dynamic_list_func_response_type sample_externals
      (PList [PDict [(PStr ''value'', PInt 1)]]) ''f'' = Inr ()"
  using validate_raises_iff_violates [of sample_externals "PList [PDict [(PStr ''display_value'', PStr ''x'')]]" "''f''"]
    validate_raises_iff_violates [of sample_externals "PList []" "''f''"]
  by (simp add: response_violates_def item_violates_def sample_externals_def isinstance_def)

text \<open>
  With the allowed types read as the set of types itself, the claim fails at
  \<^verbatim>\<open>[{"value": True}]\<close>: the type of \<^verbatim>\<open>True\<close> is \<^verbatim>\<open>bool\<close>, none of the five, and the
  validator returns.
\<close>

theorem boolean_value_violates_by_type_only:
  "response_violates_by_type sample_externals (PList [PDict [(PStr ''value'', PBool True)]]) \<and>
   validate_dynamic_list_func_response_type sample_externals
     (PList [PDict [(PStr ''value'', PBool True)]]) ''f'' = Inr ()"
  by (simp add: response_violates_by_type_def item_violates_by_type_def entry_violates_by_type_def
      type_among_def validate_Inr_iff response_violates_def item_violates_def entry_violates_def
      isinstance_def sample_externals_def)

text \<open>
  C10: a boolean passes the check of the allowed types, because \<^verbatim>\<open>bool\<close> derives from
  \<^verbatim>\<open>int\<close>, although its type is none of \<^verbatim>\<open>str\<close>, \<^verbatim>\<open>int\<close>, \<^verbatim>\<open>float\<close>, \<^verbatim>\<open>list\<close>, \<^verbatim>\<open>dict\<close>.
  An entry with a string key and a boolean value is accepted wherever the boolean is JSON
  serializable, and so is the response \<^verbatim>\<open>[{"value": b}]\<close>.
\<close>

theorem boolean_value_accepted:
  "isinstance (PBool b) [StrT, IntT, FloatT, ListT, DictT] \<and>
   type_of (PBool b) \<notin> set (map PBuiltin [StrT, IntT, FloatT, ListT, DictT]) \<and>
   (is_json_serializable ext (PBool b) \<longrightarrow>
      validate_entry ext f (PStr k, PBool b) = Inr () \<and>
      validate_dynamic_list_func_response_type ext (PList [PDict [(PStr ''value'', PBool b)]]) f = Inr ())"
  by (simp add: isinstance_def validate_entry_def validate_item_def
      validate_dynamic_list_func_response_type_def)

theorem boolean_value_accepted_witness:
  "validate_dynamic_list_func_response_type sample_externals
     (PList [PDict [(PStr ''value'', PBool True)]]) ''f'' = Inr ()"
  using boolean_value_accepted [of True sample_externals "''f''" "''value''"]
  by (simp add: sample_externals_def isinstance_def)

section \<open>Properties of append_workspace_triple_to_func_input_params\<close>

text \<open>
  C7: with a \<^verbatim>\<open>**kwargs\<close> parameter in the signature the whole workspace triple is the base
  of the result; without one, the triple restricted to the names of the signature is. The
  user's arguments are laid over the base: a key the user supplied has the user's value, any
  other key has the value of the triple if the triple passed the filter, and no value
  otherwise.
\<close>

theorem append_workspace_triple_merge:
  "(has_kwargs_param sig \<longrightarrow>
      append_workspace_triple_to_func_input_params sig user ws = the_dict ws ++ the_dict user) \<and>
   (\<not> has_kwargs_param sig \<longrightarrow>
      append_workspace_triple_to_func_input_params sig user ws =
        (the_dict ws |` set (map fst sig)) ++ the_dict user) \<and>
   (\<forall>v. the_dict user k = Some v \<longrightarrow>
      append_workspace_triple_to_func_input_params sig user ws k = Some v) \<and>
   (the_dict user k = None \<longrightarrow>
      append_workspace_triple_to_func_input_params sig user ws k =
        (if has_kwargs_param sig \<or> k \<in> set (map fst sig) then the_dict ws k else None))"
  by (auto simp: append_workspace_triple_to_func_input_params_def Let_def map_add_def restrict_map_def)

theorem append_workspace_triple_merge_witness:
  "append_workspace_triple_to_func_input_params sample_signature
     (Some [''prefix'' \<mapsto> PStr ''a'']) (Some sample_ws_triple) ''subscription_id'' = Some (PStr ''sub'') \<and>
   append_workspace_triple_to_func_input_params sample_signature
     (Some [''prefix'' \<mapsto> PStr ''a'']) (Some sample_ws_triple) ''workspace_name'' = None \<and>
   append_workspace_triple_to_func_input_params sample_signature
     (Some [''subscription_id'' \<mapsto> PStr ''mine'']) (Some sample_ws_triple) ''subscription_id'' = Some (PStr ''mine'') \<and>
   append_workspace_triple_to_func_input_params
     ((''kwargs'', \<lparr>annotation = PEmpty, default_value = PEmpty, kind = VAR_KEYWORD\<rparr>) # sample_signature)
     None (Some sample_ws_triple) = sample_ws_triple"
  using append_workspace_triple_merge [of sample_signature "Some [''prefix'' \<mapsto> PStr ''a'']"
      "Some sample_ws_triple" "''subscription_id''"]
    append_workspace_triple_merge [of sample_signature "Some [''prefix'' \<mapsto> PStr ''a'']"
      "Some sample_ws_triple" "''workspace_name''"]
    append_workspace_triple_merge [of sample_signature "Some [''subscription_id'' \<mapsto> PStr ''mine'']"
      "Some sample_ws_triple" "''subscription_id''"]
    append_workspace_triple_merge [of
      "(''kwargs'', \<lparr>annotation = PEmpty, default_value = PEmpty, kind = VAR_KEYWORD\<rparr>) # sample_signature"
      None "Some sample_ws_triple" "''x''"]
  by (simp add: has_kwargs_param_def sample_signature_def sample_ws_triple_def the_dict_def)

section \<open>Properties of param_to_definition\<close>

lemma collect_connection_types_closed:
  "map name_of ts = map Some ns \<Longrightarrow>
   collect_connection_types ext ts added tys custom =
     Inr (tys @ map TypeName
            ((if added then filter (\<lambda>y. y \<noteq> ''CustomConnection'') else once ''CustomConnection'')
               (map (candidate_tag ext) (zip ts ns))),
          custom @ custom_type_names ext ts ns)"
proof (induction ts arbitrary: ns added tys custom)
  case Nil
  then show ?case by (simp add: custom_type_names_def)
next
  case (Cons t ts)
  then obtain n ns' where ns: "ns = n # ns'" and n: "name_of t = Some n"
    and rest: "map name_of ts = map Some ns'"
    by (cases ns) auto
  show ?case
    using Cons.IH [OF rest] n
    by (simp add: ns candidate_tag_def custom_type_names_def)
qed

lemma collect_connection_types_no_name:
  "\<not> list_all (\<lambda>t. name_of t \<noteq> None) ts \<Longrightarrow>
   collect_connection_types ext ts added tys custom = Inl no_name"
  by (induction ts arbitrary: added tys custom) (auto split: option.splits)

lemma infer_value_type_list:
  "resolve_annotation anno = PList ts \<Longrightarrow> infer_value_type anno dv = PList ts"
  by (simp add: infer_value_type_def)

text \<open>
  C1, as the code has it: for a parameter whose resolved annotation is a list of candidates,
  the type is the single tag \<^verbatim>\<open>ValueType.OBJECT\<close>, with the parameter not a connection,
  exactly when some candidate is not connection-capable. When all candidates are
  connection-capable (and have a \<^verbatim>\<open>__name__\<close>) the type is the tag list of the candidates in
  order, with \<^verbatim>\<open>"CustomConnection"\<close> once at its first place, the custom type list is the
  names of the custom strong type connections when it is asked for, and the parameter is a
  connection.
\<close>

theorem param_to_definition_candidates:
  assumes "resolve_annotation (annotation p) = PList ts"
    and "\<not> is_connection_value ext (PList ts)"
  shows "(\<not> list_all (is_connection_value ext) ts \<longrightarrow>
            param_to_definition ext p gen =
              Inr (\<lparr> def_type = [Tag VT_OBJECT],
                     def_default = value_to_str ext (default_value p),
                     def_description = None, def_enum = None, def_custom_type = None \<rparr>, False)) \<and>
         (list_all (is_connection_value ext) ts \<and> map name_of ts = map Some ns \<longrightarrow>
            param_to_definition ext p gen =
              Inr (\<lparr> def_type = connection_tags ext ts ns,
                     def_default = value_to_str ext (default_value p),
                     def_description = None, def_enum = None,
                     def_custom_type = (if gen then Some (custom_type_names ext ts ns) else None) \<rparr>, True))"
  using assms
  by (simp add: param_to_definition_def infer_value_type_list Let_def connection_tags_def
      collect_connection_types_closed [where tys = "[]" and custom = "[]" and added = False, simplified])

theorem param_to_definition_candidates_witness:
  "param_to_definition sample_externals
     (plain_param (Union_of [PBuiltin IntT, PBuiltin StrT])) True =
     Inr (\<lparr> def_type = [Tag VT_OBJECT], def_default = None, def_description = None,
            def_enum = None, def_custom_type = None \<rparr>, False) \<and>
   param_to_definition sample_externals
     (plain_param (Union_of [PClass ''AzureOpenAIConnection'', PClass ''MyConnection'',
        PClass ''CustomConnection''])) True =
     Inr (\<lparr> def_type = [TypeName ''AzureOpenAIConnection'', TypeName ''CustomConnection''],
            def_default = None, def_description = None, def_enum = None,
            def_custom_type = Some [''MyConnection''] \<rparr>, True)"
  using param_to_definition_candidates [of "plain_param (Union_of [PBuiltin IntT, PBuiltin StrT])"
      "[PBuiltin IntT, PBuiltin StrT]" sample_externals True "[''int'', ''str'']"]
    param_to_definition_candidates [of
      "plain_param (Union_of [PClass ''AzureOpenAIConnection'', PClass ''MyConnection'',
        PClass ''CustomConnection''])"
      "[PClass ''AzureOpenAIConnection'', PClass ''MyConnection'',
        PClass ''CustomConnection'']" sample_externals True
      "[''AzureOpenAIConnection'', ''MyConnection'', ''CustomConnection'']"]
  by (simp add: plain_param_def resolve_annotation_def Union_of_def union_members_def
      first_occurrences_def typing_Union_def
      sample_externals_def connection_tags_def custom_type_names_def candidate_tag_def
      value_to_str_def)

theorem object_tag_with_a_connection_candidate:
  "list_ex (is_connection_value sample_externals) [PClass ''AzureOpenAIConnection'', PBuiltin StrT] \<and>
   resolve_annotation (Union_of [PClass ''AzureOpenAIConnection'', PBuiltin StrT]) =
     PList [PClass ''AzureOpenAIConnection'', PBuiltin StrT] \<and>
   param_to_definition sample_externals
     (plain_param (Union_of [PClass ''AzureOpenAIConnection'', PBuiltin StrT])) False =
     Inr (\<lparr> def_type = [Tag VT_OBJECT], def_default = None, def_description = None,
            def_enum = None, def_custom_type = None \<rparr>, False)"
  by (simp add: plain_param_def resolve_annotation_def Union_of_def union_members_def
      first_occurrences_def typing_Union_def
      sample_externals_def param_to_definition_def infer_value_type_def value_to_str_def)

text \<open>
  C9: provided the class \<^verbatim>\<open>str\<close> is not classified as a connection, no input definition
  has both an enum list and the connection flag. When the value type is an enumeration
  class, the enum list is the \<^verbatim>\<open>str\<close> of the member values in order, the type is the tag
  that \<^verbatim>\<open>ValueType.from_type\<close> gives for \<^verbatim>\<open>str\<close>, and the parameter is not a connection.
\<close>

theorem enum_is_never_connection:
  assumes "\<not> is_connection_value ext (PBuiltin StrT)"
  shows "(\<forall>d c. param_to_definition ext p gen = Inr (d, c) \<longrightarrow> \<not> (def_enum d \<noteq> None \<and> c)) \<and>
         (\<forall>n vs. infer_value_type (annotation p) (default_value p) = PEnumClass n vs \<longrightarrow>
            param_to_definition ext p gen =
              Inr (\<lparr> def_type = [Tag (from_type ext (PBuiltin StrT))],
                     def_default = value_to_str ext (default_value p),
                     def_description = None,
                     def_enum = Some (map (py_str ext) vs),
                     def_custom_type = None \<rparr>, False))"
proof (intro conjI allI impI)
  fix d c
  assume r: "param_to_definition ext p gen = Inr (d, c)"
  show "\<not> (def_enum d \<noteq> None \<and> c)"
  proof (cases "enum_options ext (infer_value_type (annotation p) (default_value p))")
    case None
    with r show ?thesis
      by (auto simp: param_to_definition_def Let_def split: sum.splits)
  next
    case (Some opts)
    with r assms show ?thesis
      by (auto simp: param_to_definition_def Let_def split: sum.splits)
  qed
next
  fix n vs
  assume "infer_value_type (annotation p) (default_value p) = PEnumClass n vs"
  with assms show "param_to_definition ext p gen =
      Inr (\<lparr> def_type = [Tag (from_type ext (PBuiltin StrT))],
             def_default = value_to_str ext (default_value p),
             def_description = None,
             def_enum = Some (map (py_str ext) vs),
             def_custom_type = None \<rparr>, False)"
    by (simp add: param_to_definition_def Let_def)
qed

theorem enum_is_never_connection_witness:
  "param_to_definition sample_externals
     \<lparr> annotation = PEmpty,
       default_value = PEnumMember (PEnumClass ''Color'' [PStr ''red'', PStr ''green'']) (PStr ''green''),
       kind = POSITIONAL_OR_KEYWORD \<rparr> True =
     Inr (\<lparr> def_type = [Tag VT_STRING], def_default = Some (PStr ''green''),
            def_description = None, def_enum = Some [''red'', ''green''],
            def_custom_type = None \<rparr>, False)"
  using enum_is_never_connection [of sample_externals
      "\<lparr> annotation = PEmpty,
         default_value = PEnumMember (PEnumClass ''Color'' [PStr ''red'', PStr ''green'']) (PStr ''green''),
         kind = POSITIONAL_OR_KEYWORD \<rparr>" True]
  by (simp add: sample_externals_def infer_value_type_def resolve_annotation_def typing_Union_def
      value_to_str_def)

section \<open>Properties of function_to_tool_definition\<close>

text \<open>
  C8 at a method of a nested class: the qualified name of \<^verbatim>\<open>run\<close> in the class \<^verbatim>\<open>runner\<close>,
  itself in the class \<^verbatim>\<open>Outer\<close>, is \<^verbatim>\<open>Outer.runner.run\<close>. \<^verbatim>\<open>replace\<close> removes \<^verbatim>\<open>.run\<close>
  twice, at the end and inside \<^verbatim>\<open>.runner\<close>, and the class name of the tool is
  \<^verbatim>\<open>Outerner\<close>, not \<^verbatim>\<open>Outer.runner\<close>. For \<^verbatim>\<open>Outer.run\<close> it is \<^verbatim>\<open>Outer\<close>.
\<close>

theorem class_name_of_nested_method:
  "map_sum id tool_class_name (function_to_tool_definition sample_externals nested_method None None)
     = Inr (Some ''Outerner'') \<and>
   map_sum id tool_class_name (function_to_tool_definition sample_externals plain_method None None)
     = Inr (Some ''Outer'')"
  by (simp add: function_to_tool_definition_def function_to_interface_def nested_method_def
      plain_method_def plain_param_def dict_update_def param_to_definition_def
      infer_value_type_def resolve_annotation_def typing_Union_def sample_externals_def
      class_name_of_def str_replace.simps)

section \<open>Properties of load_function_from_function_path\<close>







section \<open>Properties of the image pattern\<close>

lemma longest_first_SomeD:
  "longest_first f lo n = Some r \<Longrightarrow> \<exists>k. lo \<le> k \<and> k \<le> lo + n \<and> f k = Some r"
proof (induction n)
  case 0
  then show ?case by auto
next
  case (Suc n)
  show ?case
  proof (cases "f (lo + Suc n)")
    case None
    with Suc obtain k where "lo \<le> k" "k \<le> lo + n" "f k = Some r" by auto
    then show ?thesis by (intro exI [of _ k]) simp
  next
    case (Some a)
    with Suc.prems show ?thesis by (intro exI [of _ "lo + Suc n"]) simp
  qed
qed

lemma take_run_in_class:
  assumes "k \<le> length (takeWhile P s)"
  shows "\<forall>ch \<in> set (take k s). P ch"
proof -
  have "take k s = take k (takeWhile P s)"
    using assms by (metis append_eq_conv_conj append_take_drop_id takeWhile_dropWhile_id take_append
        diff_is_0_eq take_0 append_Nil2)
  then show ?thesis
    by (metis in_set_takeD set_takeWhileD)
qed

lemma rmatch_LitD:
  assumes "rmatch (Lit l # r) s pos g = Some x"
  shows "\<exists>t. s = l @ t \<and> rmatch r t (pos + length l) g = Some x"
proof -
  from assms have p: "prefix l s" and m: "rmatch r (drop (length l) s) (pos + length l) g = Some x"
    by (auto simp: rmatch.simps split: if_splits)
  from p obtain t where "s = l @ t" by (auto simp: prefix_def)
  with m show ?thesis by auto
qed

lemma rmatch_StarD:
  assumes "rmatch (Star c # r) s pos g = Some x"
  shows "\<exists>w t. s = w @ t \<and> (\<forall>ch \<in> set w. in_class c ch) \<and> rmatch r t (pos + length w) g = Some x"
proof -
  from assms obtain k where k: "k \<le> length (takeWhile (in_class c) s)"
    and m: "rmatch r (drop k s) (pos + k) g = Some x"
    by (auto simp: rmatch.simps dest!: longest_first_SomeD)
  have len: "length (take k s) = k"
    using k length_takeWhile_le [of "in_class c" s] by simp
  show ?thesis
    using take_run_in_class [OF k] m len
    by (intro exI [of _ "take k s"] exI [of _ "drop k s"]) simp
qed

lemma rmatch_PlusD:
  assumes "rmatch (Plus c # r) s pos g = Some x"
  shows "\<exists>w t. s = w @ t \<and> w \<noteq> [] \<and> (\<forall>ch \<in> set w. in_class c ch) \<and>
           rmatch r t (pos + length w) g = Some x"
proof -
  from assms have n: "length (takeWhile (in_class c) s) \<noteq> 0"
    and lf: "longest_first (\<lambda>k. rmatch r (drop k s) (pos + k) g) 1
               (length (takeWhile (in_class c) s) - 1) = Some x"
    by (auto simp: rmatch.simps Let_def split: if_splits)
  from longest_first_SomeD [OF lf] n obtain k where k: "1 \<le> k" "k \<le> length (takeWhile (in_class c) s)"
    and m: "rmatch r (drop k s) (pos + k) g = Some x"
    by auto
  have len: "length (take k s) = k"
    using k length_takeWhile_le [of "in_class c" s] by simp
  then have "take k s \<noteq> []" using k by auto
  then show ?thesis
    using take_run_in_class [OF k(2)] m len
    by (intro exI [of _ "take k s"] exI [of _ "drop k s"]) simp
qed

lemma rmatch_keeps_group:
  "rmatch r s pos g = Some (e, g') \<Longrightarrow> GroupOpen i \<notin> set r \<Longrightarrow> GroupClose i \<notin> set r \<Longrightarrow> g' i = g i"
proof (induction r s pos g rule: rmatch.induct)
  case (1 s pos g)
  then show ?case by (simp add: rmatch.simps)
next
  case (2 l r s pos g)
  then show ?case by (auto simp: rmatch.simps split: if_splits)
next
  case (3 c r s pos g)
  from longest_first_SomeD [of "\<lambda>k. rmatch r (drop k s) (pos + k) g" 0 _ "(e, g')"] "3.prems"
  obtain k where "rmatch r (drop k s) (pos + k) g = Some (e, g')" by (auto simp: rmatch.simps)
  with 3 show ?case by auto
next
  case (4 c r s pos g)
  from "4.prems" have lf: "longest_first (\<lambda>k. rmatch r (drop k s) (pos + k) g) 1
               (length (takeWhile (in_class c) s) - 1) = Some (e, g')"
    and n: "length (takeWhile (in_class c) s) \<noteq> 0"
    by (auto simp: rmatch.simps Let_def split: if_splits)
  from longest_first_SomeD [OF lf]
  obtain k where "rmatch r (drop k s) (pos + k) g = Some (e, g')" by auto
  with 4 n show ?case by auto
next
  case (5 j r s pos g)
  from "5.prems" have m: "rmatch r s pos (g(j := (pos, pos))) = Some (e, g')" and ij: "i \<noteq> j"
    by (auto simp: rmatch.simps)
  from "5.IH" [OF m] "5.prems" have "g' i = (g(j := (pos, pos))) i" by simp
  with ij show ?case by simp
next
  case (6 j r s pos g)
  from "6.prems" have m: "rmatch r s pos (g(j := (fst (g j), pos))) = Some (e, g')" and ij: "i \<noteq> j"
    by (auto simp: rmatch.simps)
  from "6.IH" [OF m] "6.prems" have "g' i = (g(j := (fst (g j), pos))) i" by simp
  with ij show ?case by simp
qed

lemma not_space_image: "\<not> is_space CHR ''i''" "\<not> is_space CHR ''e''"
  by (simp_all add: is_space_def)

lemma strip_padded:
  assumes "\<forall>ch \<in> set w1. is_space ch" "\<forall>ch \<in> set w2. is_space ch"
    and "m \<noteq> []" "\<not> is_space (hd m)" "\<not> is_space (last m)"
  shows "strip (w1 @ m @ w2) = m"
proof -
  have a: "dropWhile is_space (w1 @ m @ w2) = m @ w2"
    using assms by (cases m) (simp_all add: dropWhile_append3)
  have b: "dropWhile is_space (rev w2 @ rev m) = rev m"
    using assms by (cases "rev m") (auto simp: dropWhile_append3 hd_rev)
  show ?thesis by (simp add: strip_def a b)
qed

lemma image_pattern_group1:
  assumes "rmatch image_pattern s 0 (\<lambda>i. (0, 0)) = Some (e, g)"
  shows "strip (group s g 1) = ''image''"
proof -
  let ?tail = "[Lit '']({{'', Star Whitespace, GroupOpen 2, Plus NotBrace, GroupClose 2,
      Star Whitespace, Lit ''}})'']"
  let ?g1 = "(\<lambda>i. (0, 0))(1 := (0 + length ''!['', 0 + length ''![''))"
  have m0: "rmatch (Lit ''!['' # GroupOpen 1 # Star Whitespace # Lit ''image'' # Star Whitespace #
      GroupClose 1 # ?tail) s 0 (\<lambda>i. (0, 0)) = Some (e, g)"
    using assms unfolding image_pattern_def .
  from rmatch_LitD [OF m0] obtain s1 where s: "s = ''!['' @ s1"
    and m0': "rmatch (GroupOpen 1 # Star Whitespace # Lit ''image'' # Star Whitespace #
      GroupClose 1 # ?tail) s1 (0 + length ''!['') (\<lambda>i. (0, 0)) = Some (e, g)"
    by blast
  note m1 = m0' [unfolded rmatch.simps(5)]
  from rmatch_StarD [OF m1] obtain w1 s2 where s1: "s1 = w1 @ s2"
    and w1: "\<forall>ch \<in> set w1. in_class Whitespace ch"
    and m2: "rmatch (Lit ''image'' # Star Whitespace # GroupClose 1 # ?tail)
               s2 (0 + length ''!['' + length w1) ?g1 = Some (e, g)"
    by blast
  from rmatch_LitD [OF m2] obtain s3 where s2: "s2 = ''image'' @ s3"
    and m3: "rmatch (Star Whitespace # GroupClose 1 # ?tail)
               s3 (0 + length ''!['' + length w1 + length ''image'') ?g1 = Some (e, g)"
    by blast
  from rmatch_StarD [OF m3] obtain w2 s4 where s3: "s3 = w2 @ s4"
    and w2: "\<forall>ch \<in> set w2. in_class Whitespace ch"
    and m4: "rmatch (GroupClose 1 # ?tail)
               s4 (0 + length ''!['' + length w1 + length ''image'' + length w2) ?g1 = Some (e, g)"
    by blast
  note m5 = m4 [unfolded rmatch.simps(6)]
  have g1: "g (Suc 0) = (2, 7 + length w1 + length w2)"
    using rmatch_keeps_group [OF m5, of 1] by simp
  define mid where "mid = w1 @ ''image'' @ w2"
  have len: "length mid = 5 + length w1 + length w2"
    by (simp add: mid_def)
  have "drop 2 s = mid @ s4"
    by (simp add: mid_def s s1 s2 s3)
  then have "group s g 1 = take (length mid) (mid @ s4)"
    by (simp add: group_def g1 len)
  also have "\<dots> = mid"
    by simp
  finally have "group s g 1 = w1 @ ''image'' @ w2"
    unfolding mid_def .
  then show ?thesis
    using strip_padded [of w1 w2 "''image''"] w1 w2 by (simp add: not_space_image)
qed

lemma finditer_is_match:
  "m \<in> set (finditer pat s) \<Longrightarrow>
   \<exists>t e g. rmatch pat t 0 (\<lambda>i. (0, 0)) = Some (e, g) \<and> m = (group t g 1, group t g 2)"
proof (induction pat s rule: finditer.induct)
  case (1 pat s)
  note unfold = finditer.simps [of pat s]
  show ?case
  proof (cases "rmatch pat s 0 (\<lambda>i. (0, 0))")
    case None
    from "1.prems" have "s \<noteq> [] \<and> m \<in> set (finditer pat (tl s))"
      unfolding unfold None by (simp split: if_splits)
    with "1.IH"(1) [OF None] show ?thesis by simp
  next
    case (Some a)
    obtain e g where a: "a = (e, g)" by (cases a)
    from "1.prems" have "m = (group s g 1, group s g 2) \<or>
        (s \<noteq> [] \<and> m \<in> set (finditer pat (drop (max e 1) s)))"
      unfolding unfold Some a by (simp split: if_splits)
    then show ?thesis
    proof
      assume "m = (group s g 1, group s g 2)"
      with Some a show ?thesis by blast
    next
      assume "s \<noteq> [] \<and> m \<in> set (finditer pat (drop (max e 1) s))"
      with "1.IH"(2) [OF Some a [symmetric]] show ?thesis by simp
    qed
  qed
qed

lemma finditer_image_group1:
  "m \<in> set (finditer image_pattern s) \<Longrightarrow> strip (fst m) = ''image''"
  using finditer_is_match [of m image_pattern s] image_pattern_group1 by auto

section \<open>Properties of get_inputs_for_prompt_template\<close>

lemma map_fst_dict_set:
  "map fst (dict_set d k v) = (if k \<in> set (map fst d) then map fst d else map fst d @ [k])"
  by (induction d) auto

lemma map_of_dict_set: "map_of (dict_set d k v) = (map_of d)(k \<mapsto> v)"
  by (induction d) (auto simp: fun_eq_iff)

lemma distinct_dict_set: "distinct (map fst d) \<Longrightarrow> distinct (map fst (dict_set d k v))"
  by (simp add: map_fst_dict_set)

lemma dict_set_fresh: "k \<notin> set (map fst d) \<Longrightarrow> dict_set d k v = d @ [(k, v)]"
  by (induction d) auto

lemma dict_update_fresh:
  "distinct xs \<Longrightarrow> set xs \<inter> set (map fst d) = {} \<Longrightarrow>
   dict_update d (map (\<lambda>i. (i, v)) xs) = d @ map (\<lambda>i. (i, v)) xs"
proof (induction xs arbitrary: d)
  case Nil
  then show ?case by (simp add: dict_update_def)
next
  case (Cons x xs)
  have "dict_update d (map (\<lambda>i. (i, v)) (x # xs)) = dict_update (d @ [(x, v)]) (map (\<lambda>i. (i, v)) xs)"
    using Cons.prems by (simp add: dict_update_def dict_set_fresh)
  also have "\<dots> = (d @ [(x, v)]) @ map (\<lambda>i. (i, v)) xs"
    using Cons.prems by (intro Cons.IH) auto
  finally show ?case by simp
qed

lemma ValueType_call_image: "ValueType_call ''image'' = Some VT_IMAGE"
  by (simp add: ValueType_call_def)

lemma apply_matches_image:
  assumes "\<forall>m \<in> set ms. strip (fst m) = ''image''"
  shows "apply_matches d ms =
           Inr (foldl (\<lambda>d m. dict_set d (strip (snd m)) (InputDefinition_of [Tag VT_IMAGE])) d ms)"
  using assms by (induction ms arbitrary: d) (simp_all add: ValueType_call_image Let_def)

lemma overrides_lookup:
  "map_of (foldl (\<lambda>d m. dict_set d (f m) v) d ms) k =
     (if k \<in> f ` set ms then Some v else map_of d k)"
  by (induction ms arbitrary: d) (auto simp: map_of_dict_set)

lemma overrides_keys:
  "distinct (map fst d) \<Longrightarrow>
   \<exists>extra. map fst (foldl (\<lambda>d m. dict_set d (f m) v) d ms) = map fst d @ extra \<and>
           set extra = f ` set ms - set (map fst d) \<and> distinct extra"
proof (induction ms arbitrary: d)
  case Nil
  then show ?case by simp
next
  case (Cons m ms)
  let ?d = "dict_set d (f m) v"
  from Cons.IH [OF distinct_dict_set [OF Cons.prems], of "f m"]
  obtain extra where e: "map fst (foldl (\<lambda>d m. dict_set d (f m) v) ?d ms) = map fst ?d @ extra"
    "set extra = f ` set ms - set (map fst ?d)" "distinct extra"
    by blast
  show ?case
  proof (cases "f m \<in> set (map fst d)")
    case True
    with e show ?thesis
      by (intro exI [of _ extra]) (auto simp: map_fst_dict_set)
  next
    case False
    with e show ?thesis
      by (intro exI [of _ "f m # extra"]) (auto simp: map_fst_dict_set)
  qed
qed

lemma find_at_leftmost:
  "find_at sub s i = int j \<Longrightarrow>
   i \<le> j \<and> prefix sub (drop (j - i) s) \<and> (\<forall>m < j - i. \<not> prefix sub (drop m s))"
proof (induction s arbitrary: i)
  case Nil
  then show ?case by (auto split: if_splits)
next
  case (Cons c cs)
  show ?case
  proof (cases "prefix sub (c # cs)")
    case True
    with Cons.prems show ?thesis by simp
  next
    case False
    with Cons.prems have r: "find_at sub cs (Suc i) = int j" by simp
    from Cons.IH [OF r] have ij: "Suc i \<le> j" and p: "prefix sub (drop (j - Suc i) cs)"
      and n: "\<forall>m < j - Suc i. \<not> prefix sub (drop m cs)"
      by auto
    from ij have d: "j - i = Suc (j - Suc i)" by simp
    have "\<not> prefix sub (drop m (c # cs))" if "m < j - i" for m
      using that False n d by (cases m) auto
    with ij p d show ?thesis by auto
  qed
qed

lemma str_find_leftmost:
  "str_find s sub = int j \<Longrightarrow> prefix sub (drop j s) \<and> (\<forall>m < j. \<not> prefix sub (drop m s))"
  using find_at_leftmost [of sub s 0 j] by (simp add: str_find_def)

lemma get_inputs_result:
  assumes "jinja s = Inr undeclared" and "distinct undeclared"
  shows "get_inputs_for_prompt_template jinja s =
           Inr (foldl (\<lambda>d m. dict_set d (strip (snd m)) (InputDefinition_of [Tag VT_IMAGE]))
                  (map (\<lambda>i. (i, InputDefinition_of [Tag VT_STRING])) (sort_key (str_find s) undeclared))
                  (finditer image_pattern s))"
proof -
  have "dict_update [] (map (\<lambda>i. (i, InputDefinition_of [Tag VT_STRING])) (sort_key (str_find s) undeclared))
      = [] @ map (\<lambda>i. (i, InputDefinition_of [Tag VT_STRING])) (sort_key (str_find s) undeclared)"
    using assms(2) by (intro dict_update_fresh) simp_all
  then show ?thesis
    using assms(1) apply_matches_image [of "finditer image_pattern s"] finditer_image_group1
    by (simp add: get_inputs_for_prompt_template_def Let_def)
qed

lemma docstring_matches: "finditer image_pattern docstring_template = [(''image'', ''image_input'')]"
  by code_simp

lemma docstring_captured: "captured_names docstring_template = {''image_input''}"
proof -
  have "strip ''image_input'' = ''image_input''" by code_simp
  then show ?thesis by (simp add: captured_names_def docstring_matches)
qed

lemma docstring_sorted:
  "sort_key (str_find docstring_template) [''str_input'', ''image_input''] = [''image_input'', ''str_input'']"
  "sort_key (str_find docstring_template) [''image_input'', ''str_input''] = [''image_input'', ''str_input'']"
  by code_simp+

lemma two_element_list:
  assumes "distinct xs" "set xs = {a, b}" "a \<noteq> b"
  shows "xs = [a, b] \<or> xs = [b, a]"
proof -
  from assms have "length xs = 2"
    by (metis card_2_iff distinct_card)
  then obtain x y where xs: "xs = [x, y]"
    by (metis (no_types, opaque_lifting) One_nat_def Suc_1 length_0_conv length_Suc_conv)
  with assms show ?thesis by (auto simp: doubleton_eq_iff)
qed

lemma names_differ: "''image_input'' \<noteq> ''str_input''"
  by simp

lemma docstring_inputs:
  assumes "distinct undeclared" "set undeclared = {''image_input'', ''str_input''}"
  shows "sort_key (str_find docstring_template) undeclared = [''image_input'', ''str_input'']"
proof -
  from two_element_list [OF assms names_differ]
  have "undeclared = [''image_input'', ''str_input''] \<or> undeclared = [''str_input'', ''image_input'']" .
  then show ?thesis
  proof
    assume "undeclared = [''image_input'', ''str_input'']"
    then show ?thesis by (simp only: docstring_sorted)
  next
    assume "undeclared = [''str_input'', ''image_input'']"
    then show ?thesis by (simp only: docstring_sorted)
  qed
qed

lemma docstring_no_extra:
  assumes "set undeclared = {''image_input'', ''str_input''}"
    and "set extra = captured_names docstring_template - set undeclared"
  shows "extra = []"
proof -
  have "captured_names docstring_template - set undeclared = {}"
    unfolding docstring_captured assms(1) by blast
  with assms(2) show ?thesis by simp
qed

text \<open>
  C5: where the parser succeeds, the function returns a dict in which every token that a
  match of the image pattern captures, stripped, has the image definition, whether it was
  a key before or not; a free variable that no match captures keeps the string definition;
  and the keys begin with the free variables in the order of their detection, also where a
  match has changed the type of one of them.
\<close>

theorem image_override_after_detection:
  assumes "jinja s = Inr undeclared" and "distinct undeclared"
  shows "\<exists>d. get_inputs_for_prompt_template jinja s = Inr d \<and>
           (\<forall>m \<in> set (finditer image_pattern s).
              strip (fst m) = ''image'' \<and>
              map_of d (strip (snd m)) = Some (InputDefinition_of [Tag VT_IMAGE])) \<and>
           (\<forall>k \<in> set undeclared. k \<notin> captured_names s \<longrightarrow>
              map_of d k = Some (InputDefinition_of [Tag VT_STRING])) \<and>
           take (length undeclared) (map fst d) = sort_key (str_find s) undeclared"
proof -
  let ?inputs = "sort_key (str_find s) undeclared"
  let ?start = "map (\<lambda>i. (i, InputDefinition_of [Tag VT_STRING])) ?inputs"
  let ?result = "foldl (\<lambda>d m. dict_set d (strip (snd m)) (InputDefinition_of [Tag VT_IMAGE])) ?start
      (finditer image_pattern s)"
  have r: "get_inputs_for_prompt_template jinja s = Inr ?result"
    using assms by (rule get_inputs_result)
  have look: "map_of ?result k =
      (if k \<in> captured_names s then Some (InputDefinition_of [Tag VT_IMAGE]) else map_of ?start k)" for k
    unfolding captured_names_def by (rule overrides_lookup)
  have d0: "map_of ?start k = Some (InputDefinition_of [Tag VT_STRING])" if "k \<in> set undeclared" for k
    using that by (simp add: map_of_map_restrict)
  have keys0: "map fst ?start = ?inputs"
    by (simp add: comp_def)
  have "distinct (map fst ?start)"
    unfolding keys0 using assms(2) by simp
  from overrides_keys [OF this, of "\<lambda>m. strip (snd m)" "InputDefinition_of [Tag VT_IMAGE]"
      "finditer image_pattern s", unfolded keys0]
  obtain extra where "map fst ?result = ?inputs @ extra"
    by blast
  then have pre: "take (length undeclared) (map fst ?result) = ?inputs"
    by simp
  have img: "strip (fst m) = ''image'' \<and> map_of ?result (strip (snd m)) = Some (InputDefinition_of [Tag VT_IMAGE])"
    if "m \<in> set (finditer image_pattern s)" for m
    using that finditer_image_group1 [OF that] by (simp add: look captured_names_def)
  show ?thesis
    using r img d0 pre by (intro exI [of _ ?result]) (simp add: look)
qed

theorem image_override_after_detection_witness:
  "\<exists>d. get_inputs_for_prompt_template docstring_parse docstring_template = Inr d \<and>
       map_of d ''image_input'' = Some (InputDefinition_of [Tag VT_IMAGE]) \<and>
       map_of d ''str_input'' = Some (InputDefinition_of [Tag VT_STRING]) \<and>
       map fst d = [''image_input'', ''str_input'']"
proof -
  have s: "strip ''image_input'' = ''image_input''" by code_simp
  from image_override_after_detection [of docstring_parse docstring_template "[''str_input'', ''image_input'']"]
  obtain d where d: "get_inputs_for_prompt_template docstring_parse docstring_template = Inr d"
    "\<forall>m \<in> set (finditer image_pattern docstring_template).
        strip (fst m) = ''image'' \<and> map_of d (strip (snd m)) = Some (InputDefinition_of [Tag VT_IMAGE])"
    "\<forall>k \<in> set [''str_input'', ''image_input'']. k \<notin> captured_names docstring_template \<longrightarrow>
        map_of d k = Some (InputDefinition_of [Tag VT_STRING])"
    "take (length [''str_input'', ''image_input'']) (map fst d) =
        sort_key (str_find docstring_template) [''str_input'', ''image_input'']"
    by (auto simp: docstring_parse_def)
  have e: "get_inputs_for_prompt_template docstring_parse docstring_template =
      Inr [(''image_input'', InputDefinition_of [Tag VT_IMAGE]), (''str_input'', InputDefinition_of [Tag VT_STRING])]"
    by code_simp
  from d(2) have "map_of d ''image_input'' = Some (InputDefinition_of [Tag VT_IMAGE])"
    by (simp add: docstring_matches s)
  moreover from d(3) have "map_of d ''str_input'' = Some (InputDefinition_of [Tag VT_STRING])"
    by (simp add: docstring_captured)
  moreover from d(1) e have "map fst d = [''image_input'', ''str_input'']"
    by auto
  ultimately show ?thesis using d(1) by (intro exI [of _ d]) simp
qed

text \<open>
  C2, as the code has it: where the parser succeeds, the keys of the result are the free
  variables, sorted by the index at which \<^verbatim>\<open>find\<close> first meets the name in the raw
  template (the leftmost occurrence; names met at the same index keep the order of the
  set), followed by the captured image tokens that are not free variables, each once. For
  the template of the docstring the keys are \<^verbatim>\<open>image_input\<close>, then \<^verbatim>\<open>str_input\<close>.
\<close>

theorem prompt_template_keys:
  assumes "jinja s = Inr undeclared" and "distinct undeclared"
  shows "(\<exists>d extra. get_inputs_for_prompt_template jinja s = Inr d \<and>
            map fst d = sort_key (str_find s) undeclared @ extra \<and>
            set extra = captured_names s - set undeclared \<and> distinct extra) \<and>
         set (sort_key (str_find s) undeclared) = set undeclared \<and>
         sorted (map (str_find s) (sort_key (str_find s) undeclared)) \<and>
         (\<forall>k. filter (\<lambda>x. str_find s x = k) (sort_key (str_find s) undeclared) =
              filter (\<lambda>x. str_find s x = k) undeclared) \<and>
         (\<forall>x j. str_find s x = int j \<longrightarrow>
              prefix x (drop j s) \<and> (\<forall>i < j. \<not> prefix x (drop i s))) \<and>
         (s = docstring_template \<and> set undeclared = {''image_input'', ''str_input''} \<longrightarrow>
            map_sum id (map fst) (get_inputs_for_prompt_template jinja s) =
              Inr [''image_input'', ''str_input''])"
proof (intro conjI)
  let ?inputs = "sort_key (str_find s) undeclared"
  let ?start = "map (\<lambda>i. (i, InputDefinition_of [Tag VT_STRING])) ?inputs"
  let ?result = "foldl (\<lambda>d m. dict_set d (strip (snd m)) (InputDefinition_of [Tag VT_IMAGE])) ?start
      (finditer image_pattern s)"
  have r: "get_inputs_for_prompt_template jinja s = Inr ?result"
    using assms by (rule get_inputs_result)
  have keys0: "map fst ?start = ?inputs"
    by (simp add: comp_def)
  have "distinct (map fst ?start)"
    unfolding keys0 using assms(2) by simp
  from overrides_keys [OF this, of "\<lambda>m. strip (snd m)" "InputDefinition_of [Tag VT_IMAGE]"
      "finditer image_pattern s", unfolded keys0, folded captured_names_def]
  obtain extra where extra: "map fst ?result = ?inputs @ extra"
    "set extra = captured_names s - set undeclared" "distinct extra"
    by auto
  with r show "\<exists>d extra. get_inputs_for_prompt_template jinja s = Inr d \<and>
            map fst d = ?inputs @ extra \<and>
            set extra = captured_names s - set undeclared \<and> distinct extra"
    by blast
  show "set ?inputs = set undeclared" by simp
  show "sorted (map (str_find s) ?inputs)" by (rule sorted_sort_key)
  show "\<forall>k. filter (\<lambda>x. str_find s x = k) ?inputs = filter (\<lambda>x. str_find s x = k) undeclared"
    by (simp add: sort_key_stable)
  show "\<forall>x j. str_find s x = int j \<longrightarrow> prefix x (drop j s) \<and> (\<forall>i < j. \<not> prefix x (drop i s))"
    using str_find_leftmost by blast
  show "s = docstring_template \<and> set undeclared = {''image_input'', ''str_input''} \<longrightarrow>
      map_sum id (map fst) (get_inputs_for_prompt_template jinja s) = Inr [''image_input'', ''str_input'']"
  proof
    assume a: "s = docstring_template \<and> set undeclared = {''image_input'', ''str_input''}"
    then have s: "s = docstring_template" and u: "set undeclared = {''image_input'', ''str_input''}"
      by blast+
    have i: "?inputs = [''image_input'', ''str_input'']"
      unfolding s using assms(2) u by (rule docstring_inputs)
    have e: "extra = []"
      using u extra(2) [unfolded s] by (rule docstring_no_extra)
    have "map fst ?result = [''image_input'', ''str_input'']"
      using extra(1) unfolding i e by simp
    then show "map_sum id (map fst) (get_inputs_for_prompt_template jinja s) =
        Inr [''image_input'', ''str_input'']"
      unfolding r by simp
  qed
qed

theorem prompt_template_keys_witness:
  "map_sum id (map fst) (get_inputs_for_prompt_template docstring_parse docstring_template) =
     Inr [''image_input'', ''str_input''] \<and>
   sorted (map (str_find docstring_template) [''image_input'', ''str_input''])"
proof -
  have p: "docstring_parse docstring_template = Inr [''str_input'', ''image_input'']"
    by (simp add: docstring_parse_def)
  have d: "distinct [''str_input'', ''image_input'']"
    by simp
  have u: "set [''str_input'', ''image_input''] = {''image_input'', ''str_input''}"
    by (simp add: insert_commute)
  note t = prompt_template_keys [of docstring_parse docstring_template "[''str_input'', ''image_input'']", OF p d]
  from t have "sorted (map (str_find docstring_template)
      (sort_key (str_find docstring_template) [''str_input'', ''image_input'']))"
    by blast
  then have a: "sorted (map (str_find docstring_template) [''image_input'', ''str_input''])"
    by (simp only: docstring_sorted)
  from t have "docstring_template = docstring_template \<and>
      set [''str_input'', ''image_input''] = {''image_input'', ''str_input''} \<longrightarrow>
      map_sum id (map fst) (get_inputs_for_prompt_template docstring_parse docstring_template) =
        Inr [''image_input'', ''str_input'']"
    by blast
  with u have "map_sum id (map fst) (get_inputs_for_prompt_template docstring_parse docstring_template) =
        Inr [''image_input'', ''str_input'']"
    by blast
  with a show ?thesis by blast
qed

text \<open>
  The claim as it is stated fails where a match captures a token that is no free variable:
  in \<^verbatim>\<open>![image]({{a.b}})\<close> the one free variable is \<^verbatim>\<open>a\<close>, the captured token is \<^verbatim>\<open>a.b\<close>,
  and the result has both keys.
\<close>

theorem image_token_becomes_a_key:
  "map_sum id (map fst) (get_inputs_for_prompt_template attribute_parse attribute_template) =
     Inr [''a'', ''a.b''] \<and>
   attribute_parse attribute_template = Inr [''a''] \<and>
   ''a.b'' \<notin> set [''a'']"
proof (intro conjI)
  show "map_sum id (map fst) (get_inputs_for_prompt_template attribute_parse attribute_template) =
     Inr [''a'', ''a.b'']"
    by code_simp
  show "attribute_parse attribute_template = Inr [''a'']"
    by (simp add: attribute_parse_def)
  show "''a.b'' \<notin> set [''a'']"
    by simp
qed

end
